theory Spec2Isabelle
  imports Complex_Main
begin

section \<open>Numbers\<close>

text \<open>
  The script computes with Python floats (binary64).  A finite value is carried as a real
  number and the arithmetic on finite values is exact; overflow is left out.  The rounding of
  binary64 is defined apart, in the section on rounding, and used where a statement depends
  on it.  The two infinities and NaN are kept, because the script divides by a first price
  that may be zero and pandas marks a missing cell by NaN.  Zero carries no sign (a raw price
  is never \<open>-0.0\<close>).
\<close>

datatype f64 = Fin real | PInf | NInf | NaN

fun fneg :: "f64 \<Rightarrow> f64" where
  "fneg (Fin x) = Fin (- x)"
| "fneg PInf = NInf"
| "fneg NInf = PInf"
| "fneg NaN = NaN"

text \<open>An infinity of the sign of \<open>s\<close>; NaN when \<open>s = 0\<close> (the invalid operations).\<close>

definition signed_inf :: "real \<Rightarrow> f64" where
  "signed_inf s = (if 0 < s then PInf else if s < 0 then NInf else NaN)"

fun fadd :: "f64 \<Rightarrow> f64 \<Rightarrow> f64" where
  "fadd (Fin x) (Fin y) = Fin (x + y)"
| "fadd (Fin x) PInf = PInf"
| "fadd (Fin x) NInf = NInf"
| "fadd PInf (Fin y) = PInf"
| "fadd PInf PInf = PInf"
| "fadd PInf NInf = NaN"
| "fadd NInf (Fin y) = NInf"
| "fadd NInf NInf = NInf"
| "fadd NInf PInf = NaN"
| "fadd NaN b = NaN"
| "fadd a NaN = NaN"

definition fsub :: "f64 \<Rightarrow> f64 \<Rightarrow> f64" where
  "fsub a b = fadd a (fneg b)"

fun fmul :: "f64 \<Rightarrow> f64 \<Rightarrow> f64" where
  "fmul (Fin x) (Fin y) = Fin (x * y)"
| "fmul (Fin x) PInf = signed_inf x"
| "fmul (Fin x) NInf = signed_inf (- x)"
| "fmul PInf (Fin y) = signed_inf y"
| "fmul NInf (Fin y) = signed_inf (- y)"
| "fmul PInf PInf = PInf"
| "fmul PInf NInf = NInf"
| "fmul NInf PInf = NInf"
| "fmul NInf NInf = PInf"
| "fmul NaN b = NaN"
| "fmul a NaN = NaN"

text \<open>
  Division as numpy does it on arrays: a zero divisor raises nothing, it gives an infinity of
  the sign of the dividend, or NaN for \<open>0 / 0\<close>.
\<close>

fun fdiv :: "f64 \<Rightarrow> f64 \<Rightarrow> f64" where
  "fdiv (Fin x) (Fin y) = (if y = 0 then signed_inf x else Fin (x / y))"
| "fdiv (Fin x) PInf = Fin 0"
| "fdiv (Fin x) NInf = Fin 0"
| "fdiv PInf (Fin y) = (if 0 \<le> y then PInf else NInf)"
| "fdiv NInf (Fin y) = (if 0 \<le> y then NInf else PInf)"
| "fdiv PInf PInf = NaN"
| "fdiv PInf NInf = NaN"
| "fdiv NInf PInf = NaN"
| "fdiv NInf NInf = NaN"
| "fdiv NaN b = NaN"
| "fdiv a NaN = NaN"

text \<open>The comparison \<open>a > b\<close>: false as soon as one side is NaN.\<close>

fun fgt :: "f64 \<Rightarrow> f64 \<Rightarrow> bool" where
  "fgt (Fin x) (Fin y) = (y < x)"
| "fgt (Fin x) NInf = True"
| "fgt (Fin x) PInf = False"
| "fgt PInf (Fin y) = True"
| "fgt PInf NInf = True"
| "fgt PInf PInf = False"
| "fgt NInf b = False"
| "fgt NaN b = False"
| "fgt a NaN = False"

text \<open>
  A cell of a price column is a finite price or missing (pandas' NaN): raw prices are finite,
  and alignment and filling only copy them.
\<close>

type_synonym cell = "real option"

fun of_cell :: "cell \<Rightarrow> f64" where
  "of_cell None = NaN"
| "of_cell (Some x) = Fin x"

section \<open>Exceptions\<close>

datatype exn =
    IndexError
  | DuplicateIndexError
  | FileNotFoundError string
  | ParserError string
  | ConnectionError
  | HTTPError nat
  | MalformedResponse

section \<open>Price series and the aligned frame\<close>

text \<open>
  A price series is the data frame \<open>get_binance_data\<close> returns and a snapshot file stores:
  rows of (timestamp in milliseconds, closing price), in row order.
\<close>

type_synonym price_series = "(int \<times> real) list"

record frame =
  index :: "int list"
  btc_usd :: "cell list"
  eth_usd :: "cell list"

text \<open>
  \<open>pd.concat([btc_df["price"], eth_df["price"]], axis=1)\<close>: an outer join on the
  timestamp.  The joint index of two datetime indexes is their sorted union; pandas keeps the
  left index as it is when the two indexes are equal or the right one is empty, and the right
  one when the left is empty.  A column whose index is not the joint index is reindexed on it,
  which pandas refuses for an index with duplicate labels.  The timestamps of a price series
  are distinct; of the series with repeated timestamps only those are followed exactly whose
  two indexes are equal or of which one is empty, every other such join is taken to raise.
\<close>

definition union_index :: "int list \<Rightarrow> int list \<Rightarrow> int list" where
  "union_index a b =
     (if a = b \<or> b = [] then a else if a = [] then b else sort (remdups (a @ b)))"

definition reindex :: "price_series \<Rightarrow> int list \<Rightarrow> exn + cell list" where
  "reindex s idx =
     (if map fst s = idx then Inr (map (\<lambda>r. Some (snd r)) s)
      else if \<not> distinct (map fst s) then Inl DuplicateIndexError
      else Inr (map (map_of s) idx))"

definition concat_prices :: "price_series \<Rightarrow> price_series \<Rightarrow> exn + frame" where
  "concat_prices btc_df eth_df =
     (let idx = union_index (map fst btc_df) (map fst eth_df) in
      case reindex btc_df idx of
        Inl x \<Rightarrow> Inl x
      | Inr bc \<Rightarrow>
          (case reindex eth_df idx of
             Inl x \<Rightarrow> Inl x
           | Inr ec \<Rightarrow> Inr \<lparr>index = idx, btc_usd = bc, eth_usd = ec\<rparr>))"

text \<open>\<open>ffill\<close>: a missing cell takes the last value seen above it, if there is one.\<close>

fun ffill_from :: "cell \<Rightarrow> cell list \<Rightarrow> cell list" where
  "ffill_from prev [] = []"
| "ffill_from prev (None # xs) = prev # ffill_from prev xs"
| "ffill_from prev (Some v # xs) = Some v # ffill_from (Some v) xs"

definition ffill :: "cell list \<Rightarrow> cell list" where
  "ffill xs = ffill_from None xs"

text \<open>\<open>bfill\<close>: a missing cell takes the next value below it, if there is one.\<close>

fun bfill :: "cell list \<Rightarrow> cell list" where
  "bfill [] = []"
| "bfill (Some v # xs) = Some v # bfill xs"
| "bfill (None # xs) = (case bfill xs of [] \<Rightarrow> [None] | y # ys \<Rightarrow> y # y # ys)"

definition fill_frame :: "frame \<Rightarrow> frame" where
  "fill_frame d = d\<lparr>btc_usd := bfill (ffill (btc_usd d)), eth_usd := bfill (ffill (eth_usd d))\<rparr>"

text \<open>Lines 87 to 89: \<open>data\<close>.\<close>

definition aligned :: "price_series \<Rightarrow> price_series \<Rightarrow> exn + frame" where
  "aligned btc_df eth_df =
     (case concat_prices btc_df eth_df of Inl x \<Rightarrow> Inl x | Inr d \<Rightarrow> Inr (fill_frame d))"

section \<open>Normalized portfolios\<close>

text \<open>\<open>.iloc[0]\<close> and \<open>.iloc[-1]\<close> raise IndexError on an empty column.\<close>

definition iloc_first :: "'a list \<Rightarrow> exn + 'a" where
  "iloc_first xs = (case xs of [] \<Rightarrow> Inl IndexError | x # _ \<Rightarrow> Inr x)"

definition iloc_last :: "'a list \<Rightarrow> exn + 'a" where
  "iloc_last xs = (if xs = [] then Inl IndexError else Inr (last xs))"

text \<open>Lines 94 and 95: a column divided by its own first value.\<close>

definition normalize :: "cell list \<Rightarrow> exn + f64 list" where
  "normalize col =
     (case iloc_first col of
        Inl x \<Rightarrow> Inl x
      | Inr x0 \<Rightarrow> Inr (map (\<lambda>x. fdiv (of_cell x) (of_cell x0)) col))"

record portfolios =
  p_index :: "int list"
  p_btc :: "f64 list"
  p_eth :: "f64 list"
  p_mix :: "f64 list"

text \<open>Lines 94 to 102: the three normalized series, \<open>mix = 0.5 * btc + 0.5 * eth\<close>.\<close>

definition compute_portfolios :: "frame \<Rightarrow> exn + portfolios" where
  "compute_portfolios d =
     (case normalize (btc_usd d) of
        Inl x \<Rightarrow> Inl x
      | Inr btc \<Rightarrow>
          (case normalize (eth_usd d) of
             Inl x \<Rightarrow> Inl x
           | Inr eth \<Rightarrow>
               Inr \<lparr>p_index = index d, p_btc = btc, p_eth = eth,
                    p_mix = map2 (\<lambda>b e. fadd (fmul (Fin (1/2)) b) (fmul (Fin (1/2)) e)) btc eth\<rparr>))"

section \<open>Trend smoothing\<close>

definition ema_period :: nat where
  "ema_period = 7"

text \<open>\<open>ewm(span=s, adjust=False)\<close>: the decay \<open>alpha = 2 / (s + 1)\<close>.\<close>

definition alpha_of_span :: "nat \<Rightarrow> real" where
  "alpha_of_span s = 2 / (real s + 1)"

text \<open>
  \<open>.ewm(span, adjust=False).mean()\<close> as pandas computes it (\<open>ignore_na=False\<close>,
  \<open>min_periods=0\<close>).  \<open>weighted\<close> is the running average, missing until the first
  observation; \<open>old_wt\<close> is the weight of the running average, which decays over a gap of
  missing cells and is reset to 1 at every observation.  An observation equal to the running
  average leaves it as it is.
\<close>

fun ewm_loop :: "real \<Rightarrow> cell \<Rightarrow> real \<Rightarrow> cell list \<Rightarrow> cell list" where
  "ewm_loop a weighted old_wt [] = []"
| "ewm_loop a None old_wt (cur # rest) = cur # ewm_loop a cur old_wt rest"
| "ewm_loop a (Some w) old_wt (None # rest) =
     Some w # ewm_loop a (Some w) (old_wt * (1 - a)) rest"
| "ewm_loop a (Some w) old_wt (Some c # rest) =
     (let old_wt' = old_wt * (1 - a);
          w' = (if w \<noteq> c then (old_wt' * w + a * c) / (old_wt' + a) else w)
      in Some w' # ewm_loop a (Some w') 1 rest)"

definition ewm_mean :: "real \<Rightarrow> cell list \<Rightarrow> cell list" where
  "ewm_mean a vals = (case vals of [] \<Rightarrow> [] | v # rest \<Rightarrow> v # ewm_loop a v 1 rest)"

text \<open>Lines 134 and 155: \<open>price.ewm(span=ema_period, adjust=False).mean()\<close>.\<close>

definition ema :: "cell list \<Rightarrow> cell list" where
  "ema price = ewm_mean (alpha_of_span ema_period) price"

section \<open>Summary metrics and the leading-asset signal\<close>

record metrics =
  eth_last :: f64
  btc_last :: f64
  eth_btc_ratio :: f64
  eth_return_pct :: f64
  btc_return_pct :: f64
  diff_pct :: f64

text \<open>Lines 175 to 180.\<close>

definition compute_metrics :: "portfolios \<Rightarrow> exn + metrics" where
  "compute_metrics p =
     (case iloc_last (p_eth p) of
        Inl x \<Rightarrow> Inl x
      | Inr el \<Rightarrow>
          (case iloc_last (p_btc p) of
             Inl x \<Rightarrow> Inl x
           | Inr bl \<Rightarrow>
               (let er = fmul (fsub el (Fin 1)) (Fin 100);
                    br = fmul (fsub bl (Fin 1)) (Fin 100)
                in Inr \<lparr>eth_last = el, btc_last = bl, eth_btc_ratio = fdiv el bl,
                        eth_return_pct = er, btc_return_pct = br, diff_pct = fsub er br\<rparr>)))"

section \<open>Files, network and screen\<close>

record log_row =
  timestamp_utc :: string
  BTC_Price :: cell
  ETH_Price :: cell
  BTC_Normalized :: f64
  ETH_Normalized :: f64
  Mix_50_50 :: f64
  ETH_BTC_Ratio :: f64
  BTC_Return :: f64
  ETH_Return :: f64
  Difference :: f64

text \<open>
  A CSV file is its lines.  A snapshot file has the header \<open>timestamp,price\<close> and one line
  per row of the series; a log file has the ten-column header and one line per logged row.
\<close>

datatype csv_line =
    SnapshotHeader
  | SnapshotRow int real
  | LogHeader
  | LogRow log_row

type_synonym files = "string \<Rightarrow> csv_line list option"

definition raw_data_dir :: string where
  "raw_data_dir = ''data_logs/raw_data''"

text \<open>Lines 66, 67, 81 and 82: \<open>f"{raw_data_dir}/BTCUSDT_{date}.csv"\<close>.\<close>

definition snapshot_file :: "string \<Rightarrow> string \<Rightarrow> string" where
  "snapshot_file symbol date = raw_data_dir @ ''/'' @ symbol @ ''_'' @ date @ ''.csv''"

text \<open>Line 196.\<close>

definition log_filename :: "string \<Rightarrow> string" where
  "log_filename date = ''data_logs/crypto_tracker_'' @ date @ ''.csv''"

text \<open>A path inside the snapshot directory.\<close>

definition in_raw_data_dir :: "string \<Rightarrow> bool" where
  "in_raw_data_dir path = (take (length raw_data_dir + 1) path = raw_data_dir @ ''/'')"

text \<open>\<open>df.to_csv(path)\<close> of a price series: the file is replaced.\<close>

definition to_csv :: "price_series \<Rightarrow> csv_line list" where
  "to_csv df = SnapshotHeader # map (\<lambda>r. SnapshotRow (fst r) (snd r)) df"

fun snapshot_rows :: "csv_line list \<Rightarrow> price_series option" where
  "snapshot_rows [] = Some []"
| "snapshot_rows (SnapshotRow t p # ls) =
     (case snapshot_rows ls of None \<Rightarrow> None | Some rows \<Rightarrow> Some ((t, p) # rows))"
| "snapshot_rows (l # ls) = None"

text \<open>
  \<open>pd.read_csv(path, parse_dates=["timestamp"], index_col="timestamp")\<close>: a missing file
  raises FileNotFoundError, a file that is not a snapshot table a parser error.
\<close>

definition read_csv :: "files \<Rightarrow> string \<Rightarrow> exn + price_series" where
  "read_csv fs path =
     (case fs path of
        None \<Rightarrow> Inl (FileNotFoundError path)
      | Some [] \<Rightarrow> Inl (ParserError path)
      | Some (SnapshotHeader # ls) \<Rightarrow>
          (case snapshot_rows ls of None \<Rightarrow> Inl (ParserError path) | Some df \<Rightarrow> Inr df)
      | Some (l # ls) \<Rightarrow> Inl (ParserError path))"

text \<open>
  The answer to \<open>requests.get\<close>: no answer at all (a network failure), or a status code
  with a body.  Of the body only its reading as klines matters: \<open>None\<close> when
  \<open>r.json()\<close>, the twelve-column data frame or \<open>astype(float)\<close> raises, else the rows
  of (open time, closing price).
\<close>

datatype http_result = NoResponse | Response nat "price_series option"

text \<open>
  What one run reads from outside: the choice made in the sidebar, the exchange's answer per
  symbol, and the clock at the three places the script reads it (line 80, line 196 and
  line 199).
\<close>

record env =
  snapshot_choice :: string
  http_get :: "string \<Rightarrow> http_result"
  today_at_save :: string
  today_at_log :: string
  now_at_log :: string

text \<open>Line 38.\<close>

definition freeze_mode :: "env \<Rightarrow> bool" where
  "freeze_mode e = (snapshot_choice e \<noteq> ''Today (Live)'')"

text \<open>
  Lines 43 to 59.  \<open>raise_for_status\<close> of the requests library raises HTTPError for a
  status code from 400 to 599 and for no other.
\<close>

definition get_binance_data :: "env \<Rightarrow> string \<Rightarrow> exn + price_series" where
  "get_binance_data e symbol =
     (case http_get e symbol of
        NoResponse \<Rightarrow> Inl ConnectionError
      | Response status body \<Rightarrow>
          if 400 \<le> status \<and> status < 600 then Inl (HTTPError status)
          else (case body of None \<Rightarrow> Inl MalformedResponse | Some klines \<Rightarrow> Inr klines))"

text \<open>
  What a run does that can be seen from outside, in order: the requests it sends and what it
  puts on the page.  A chart carries the series it plots; titles, colours and the axis range
  are left out.
\<close>

datatype event =
    SidebarInfo string
  | SidebarSuccess
  | HttpGet string
  | StError exn
  | PortfolioChart portfolios
  | PriceChart string "int list" "cell list" "cell list"
  | Metric string f64 f64
  | EthRecovery f64
  | BtcLeading f64
  | DownloadButton string "csv_line list"
  | LoggedTo string
  | Caption

text \<open>How a run ends: at its last line, at \<open>st.stop()\<close>, or with an uncaught exception.\<close>

datatype outcome = Completed | Stopped | Raised exn

record result =
  files_out :: files
  shown :: "event list"
  ended :: outcome

section \<open>The script\<close>

text \<open>
  Lines 11 to 38 set up the page, create the two directories if they are missing and list the
  snapshot dates for the selector: they send no request and write no file.  Of them the run
  keeps the choice made in the selector, \<open>snapshot_choice\<close>.
\<close>

text \<open>
  Lines 64 to 82.  \<open>Inl\<close> is a run that ends here; \<open>Inr\<close> carries the files, the events
  so far and the two data frames.
\<close>

definition load_data ::
  "env \<Rightarrow> files \<Rightarrow> result + (files \<times> event list \<times> price_series \<times> price_series)" where
  "load_data e fs =
     (if freeze_mode e then
        (let evs = [SidebarInfo (snapshot_choice e)] in
         case read_csv fs (snapshot_file ''BTCUSDT'' (snapshot_choice e)) of
           Inl x \<Rightarrow> Inl \<lparr>files_out = fs, shown = evs, ended = Raised x\<rparr>
         | Inr btc_df \<Rightarrow>
             (case read_csv fs (snapshot_file ''ETHUSDT'' (snapshot_choice e)) of
                Inl x \<Rightarrow> Inl \<lparr>files_out = fs, shown = evs, ended = Raised x\<rparr>
              | Inr eth_df \<Rightarrow> Inr (fs, evs, btc_df, eth_df)))
      else
        (let evs = [SidebarSuccess, HttpGet ''BTCUSDT''] in
         case get_binance_data e ''BTCUSDT'' of
           Inl x \<Rightarrow> Inl \<lparr>files_out = fs, shown = evs @ [StError x], ended = Stopped\<rparr>
         | Inr btc_df \<Rightarrow>
             (let evs' = evs @ [HttpGet ''ETHUSDT''] in
              case get_binance_data e ''ETHUSDT'' of
                Inl x \<Rightarrow> Inl \<lparr>files_out = fs, shown = evs' @ [StError x], ended = Stopped\<rparr>
              | Inr eth_df \<Rightarrow>
                  Inr (fs(snapshot_file ''BTCUSDT'' (today_at_save e) \<mapsto> to_csv btc_df,
                          snapshot_file ''ETHUSDT'' (today_at_save e) \<mapsto> to_csv eth_df),
                       evs', btc_df, eth_df))))"

text \<open>Lines 110 to 170: the three charts.\<close>

definition charts :: "frame \<Rightarrow> portfolios \<Rightarrow> event list" where
  "charts d p =
     [PortfolioChart p,
      PriceChart ''BTC-USD'' (index d) (btc_usd d) (ema (btc_usd d)),
      PriceChart ''ETH-USD'' (index d) (eth_usd d) (ema (eth_usd d))]"

text \<open>Lines 187 to 190.\<close>

definition banner :: "metrics \<Rightarrow> event" where
  "banner m =
     (if fgt (eth_last m) (btc_last m) then EthRecovery (eth_btc_ratio m)
      else BtcLeading (eth_btc_ratio m))"

text \<open>Lines 182 to 190: the three tiles and the banner.\<close>

definition metric_events :: "metrics \<Rightarrow> event list" where
  "metric_events m =
     [Metric ''BTC normalized'' (btc_last m) (btc_return_pct m),
      Metric ''ETH normalized'' (eth_last m) (eth_return_pct m),
      Metric ''ETH/BTC ratio'' (eth_btc_ratio m) (diff_pct m),
      banner m]"

text \<open>Lines 198 to 209.\<close>

definition log_entry :: "env \<Rightarrow> frame \<Rightarrow> portfolios \<Rightarrow> metrics \<Rightarrow> exn + log_row" where
  "log_entry e d p m =
     (case iloc_last (btc_usd d) of
        Inl x \<Rightarrow> Inl x
      | Inr bp \<Rightarrow>
          (case iloc_last (eth_usd d) of
             Inl x \<Rightarrow> Inl x
           | Inr ep \<Rightarrow>
               (case iloc_last (p_mix p) of
                  Inl x \<Rightarrow> Inl x
                | Inr mx \<Rightarrow>
                    Inr \<lparr>timestamp_utc = now_at_log e, BTC_Price = bp, ETH_Price = ep,
                         BTC_Normalized = btc_last m, ETH_Normalized = eth_last m,
                         Mix_50_50 = mx, ETH_BTC_Ratio = eth_btc_ratio m,
                         BTC_Return = btc_return_pct m, ETH_Return = eth_return_pct m,
                         Difference = diff_pct m\<rparr>)))"

text \<open>
  Lines 211 to 214: a new file gets the header and the row, an existing file the row at its
  end.
\<close>

definition write_log :: "files \<Rightarrow> string \<Rightarrow> log_row \<Rightarrow> csv_line list" where
  "write_log fs path row =
     (case fs path of None \<Rightarrow> [LogHeader, LogRow row] | Some ls \<Rightarrow> ls @ [LogRow row])"

text \<open>Lines 87 to 229, from the two data frames on.\<close>

definition analyse ::
  "env \<Rightarrow> files \<Rightarrow> event list \<Rightarrow> price_series \<Rightarrow> price_series \<Rightarrow> result" where
  "analyse e fs evs btc_df eth_df =
     (case aligned btc_df eth_df of
        Inl x \<Rightarrow> \<lparr>files_out = fs, shown = evs, ended = Raised x\<rparr>
      | Inr d \<Rightarrow>
          (case compute_portfolios d of
             Inl x \<Rightarrow> \<lparr>files_out = fs, shown = evs, ended = Raised x\<rparr>
           | Inr p \<Rightarrow>
               (case compute_metrics p of
                  Inl x \<Rightarrow> \<lparr>files_out = fs, shown = evs @ charts d p, ended = Raised x\<rparr>
                | Inr m \<Rightarrow>
                    (case log_entry e d p m of
                       Inl x \<Rightarrow>
                         \<lparr>files_out = fs, shown = evs @ charts d p @ metric_events m,
                          ended = Raised x\<rparr>
                     | Inr row \<Rightarrow>
                         (let path = log_filename (today_at_log e);
                              ls = write_log fs path row
                          in \<lparr>files_out = fs(path \<mapsto> ls),
                              shown = evs @ charts d p @ metric_events m
                                @ [DownloadButton path ls, LoggedTo path, Caption],
                              ended = Completed\<rparr>)))))"

text \<open>One run of the script on the files \<open>fs\<close>.\<close>

definition run :: "env \<Rightarrow> files \<Rightarrow> result" where
  "run e fs =
     (case load_data e fs of
        Inl r \<Rightarrow> r
      | Inr (fs', evs, btc_df, eth_df) \<Rightarrow> analyse e fs' evs btc_df eth_df)"

text \<open>Runs one after the other, each on the files the one before left.\<close>

fun runs :: "env list \<Rightarrow> files \<Rightarrow> result list" where
  "runs [] fs = []"
| "runs (e # es) fs = run e fs # runs es (files_out (run e fs))"

definition files_after :: "files \<Rightarrow> result list \<Rightarrow> files" where
  "files_after fs rs = (if rs = [] then fs else files_out (last rs))"

definition completed :: "result list \<Rightarrow> nat" where
  "completed rs = length (filter (\<lambda>r. ended r = Completed) rs)"

section \<open>Auxiliary notions for the statements\<close>


text \<open>Lines 87 to 102 as one function of the two raw series.\<close>

definition portfolios_of :: "price_series \<Rightarrow> price_series \<Rightarrow> exn + portfolios" where
  "portfolios_of btc_df eth_df =
     (case aligned btc_df eth_df of Inl x \<Rightarrow> Inl x | Inr d \<Rightarrow> compute_portfolios d)"

text \<open>The recursion \<open>out[i] = a * price[i] + (1 - a) * out[i - 1]\<close>, started at \<open>prev\<close>.\<close>

fun ema_rec :: "real \<Rightarrow> real \<Rightarrow> real list \<Rightarrow> real list" where
  "ema_rec a prev [] = []"
| "ema_rec a prev (x # xs) = (a * x + (1 - a) * prev) # ema_rec a (a * x + (1 - a) * prev) xs"

section \<open>Rounding\<close>

text \<open>
  Where a statement depends on it, the rounding of binary64 is added to the exact arithmetic:
  53 significant bits, round to nearest, ties to even.  The exponent is not bounded here
  (no overflow, no subnormal numbers).
\<close>

text \<open>The nearest integer, the even one of the two when \<open>x\<close> lies halfway.\<close>

definition round_half_even :: "real \<Rightarrow> int" where
  "round_half_even x =
     (let f = \<lfloor>x\<rfloor>; r = x - of_int f
      in if r < 1/2 then f else if 1/2 < r then f + 1 else if even f then f else f + 1)"

text \<open>
  Halving \<open>a\<close> until it is below \<open>2^53\<close>, and doubling it until it is at least
  \<open>2^52\<close>; \<open>s\<close> takes the opposite factors, so that \<open>a * s\<close> stays what it was.
\<close>

function scale_down :: "real \<Rightarrow> real \<Rightarrow> real \<times> real" where
  "scale_down a s = (if 2 ^ 53 \<le> a then scale_down (a / 2) (2 * s) else (a, s))"
  by pat_completeness auto
termination
proof (relation "measure (\<lambda>(a, s). nat \<lceil>a\<rceil>)")
  show "wf (measure (\<lambda>(a, s). nat \<lceil>a\<rceil>))" by simp
next
  fix a s :: real
  assume a: "2 ^ 53 \<le> a"
  have "real_of_int \<lceil>a / 2\<rceil> < a / 2 + 1" by linarith
  also have "\<dots> < a" using a by simp
  also have "\<dots> \<le> real_of_int \<lceil>a\<rceil>" by linarith
  finally have "\<lceil>a / 2\<rceil> < \<lceil>a\<rceil>" by simp
  moreover have "0 < \<lceil>a\<rceil>" using a by (simp add: ceiling_less_iff)
  ultimately show "((a / 2, 2 * s), (a, s)) \<in> measure (\<lambda>(a, s). nat \<lceil>a\<rceil>)"
    by simp
qed

function scale_up :: "real \<Rightarrow> real \<Rightarrow> real \<times> real" where
  "scale_up a s = (if 0 < a \<and> a < 2 ^ 52 then scale_up (2 * a) (s / 2) else (a, s))"
  by pat_completeness auto
termination
proof (relation "measure (\<lambda>(a, s). nat \<lceil>2 ^ 52 / a\<rceil>)")
  show "wf (measure (\<lambda>(a, s). nat \<lceil>2 ^ 52 / a\<rceil>))" by simp
next
  fix a s :: real
  assume a: "0 < a \<and> a < 2 ^ 52"
  define y where "y = 2 ^ 52 / a"
  have y: "1 < y" using a by (simp add: y_def)
  have h: "2 ^ 52 / (2 * a) = y / 2" by (simp add: y_def)
  have "\<lceil>y / 2\<rceil> < \<lceil>y\<rceil>"
  proof (cases "2 \<le> y")
    case True
    have "real_of_int \<lceil>y / 2\<rceil> < y / 2 + 1" by linarith
    also have "\<dots> \<le> y" using True by simp
    also have "\<dots> \<le> real_of_int \<lceil>y\<rceil>" by linarith
    finally show ?thesis by simp
  next
    case False
    then have "\<lceil>y / 2\<rceil> \<le> 1" by (simp add: ceiling_le_iff)
    moreover have "1 < \<lceil>y\<rceil>" using y by (simp add: less_ceiling_iff)
    ultimately show ?thesis by (rule le_less_trans)
  qed
  moreover have "0 < \<lceil>y\<rceil>" using y by (simp add: less_ceiling_iff)
  ultimately show "((2 * a, s / 2), (a, s)) \<in> measure (\<lambda>(a, s). nat \<lceil>2 ^ 52 / a\<rceil>)"
    unfolding h [symmetric] y_def by simp
qed

text \<open>The binary64 number nearest to \<open>x\<close>: \<open>x\<close> rounded to 53 significant bits.\<close>

definition round53 :: "real \<Rightarrow> real" where
  "round53 x =
     (if x = 0 then 0
      else (case scale_down \<bar>x\<bar> 1 of (a, s) \<Rightarrow>
              (case scale_up a s of (a', s') \<Rightarrow> sgn x * of_int (round_half_even a') * s')))"

declare scale_down.simps [simp del] scale_up.simps [simp del]

text \<open>Lines 94 to 102 again, every operation followed by the rounding.\<close>

definition fround :: "f64 \<Rightarrow> f64" where
  "fround a = (case a of Fin x \<Rightarrow> Fin (round53 x) | PInf \<Rightarrow> PInf | NInf \<Rightarrow> NInf | NaN \<Rightarrow> NaN)"

definition normalize_b64 :: "cell list \<Rightarrow> exn + f64 list" where
  "normalize_b64 col =
     (case iloc_first col of
        Inl x \<Rightarrow> Inl x
      | Inr x0 \<Rightarrow> Inr (map (\<lambda>x. fround (fdiv (of_cell x) (of_cell x0))) col))"

definition compute_portfolios_b64 :: "frame \<Rightarrow> exn + portfolios" where
  "compute_portfolios_b64 d =
     (case normalize_b64 (btc_usd d) of
        Inl x \<Rightarrow> Inl x
      | Inr btc \<Rightarrow>
          (case normalize_b64 (eth_usd d) of
             Inl x \<Rightarrow> Inl x
           | Inr eth \<Rightarrow>
               Inr \<lparr>p_index = index d, p_btc = btc, p_eth = eth,
                    p_mix = map2 (\<lambda>b e. fround (fadd (fround (fmul (Fin (1/2)) b))
                                                      (fround (fmul (Fin (1/2)) e)))) btc eth\<rparr>))"

definition portfolios_of_b64 :: "price_series \<Rightarrow> price_series \<Rightarrow> exn + portfolios" where
  "portfolios_of_b64 btc_df eth_df =
     (case aligned btc_df eth_df of Inl x \<Rightarrow> Inl x | Inr d \<Rightarrow> compute_portfolios_b64 d)"

text \<open>A raw series with every price multiplied by \<open>c\<close> in binary64.\<close>

definition scale_b64 :: "real \<Rightarrow> price_series \<Rightarrow> price_series" where
  "scale_b64 c s = map (\<lambda>r. (fst r, round53 (c * snd r))) s"

section \<open>Events, environments and the log, for the statements\<close>

text \<open>Kinds of events.\<close>

fun is_chart :: "event \<Rightarrow> bool" where
  "is_chart (PortfolioChart p) = True"
| "is_chart (PriceChart name idx price tr) = True"
| "is_chart ev = False"

fun is_http_get :: "event \<Rightarrow> bool" where
  "is_http_get (HttpGet symbol) = True"
| "is_http_get ev = False"

fun is_banner :: "event \<Rightarrow> bool" where
  "is_banner (EthRecovery r) = True"
| "is_banner (BtcLeading r) = True"
| "is_banner ev = False"

text \<open>A network failure, or an answer with a status code from 400 to 599.\<close>

definition http_failure :: "http_result \<Rightarrow> bool" where
  "http_failure r =
     (case r of NoResponse \<Rightarrow> True | Response status body \<Rightarrow> 400 \<le> status \<and> status < 600)"

text \<open>
  The same answer with status 200 in place of every status code outside 400 to 599; an
  answer with a status code from 400 to 599 and a missing answer stay what they are.
\<close>

definition as_success :: "http_result \<Rightarrow> http_result" where
  "as_success r =
     (case r of
        NoResponse \<Rightarrow> NoResponse
      | Response status body \<Rightarrow>
          if 400 \<le> status \<and> status < 600 then Response status body else Response 200 body)"

text \<open>
  Two families of environments: a live run on \<open>day\<close> with the given answers of the
  exchange for BTCUSDT and for ETHUSDT, and a run on \<open>day\<close> that views the snapshot of
  \<open>choice\<close>.
\<close>

definition live_env :: "http_result \<Rightarrow> http_result \<Rightarrow> string \<Rightarrow> env" where
  "live_env btc_answer eth_answer day =
     \<lparr>snapshot_choice = ''Today (Live)'',
      http_get = (\<lambda>symbol. if symbol = ''BTCUSDT'' then btc_answer else eth_answer),
      today_at_save = day, today_at_log = day, now_at_log = day @ '' 12:00:00''\<rparr>"

definition frozen_env :: "string \<Rightarrow> string \<Rightarrow> env" where
  "frozen_env choice day =
     \<lparr>snapshot_choice = choice, http_get = (\<lambda>symbol. NoResponse),
      today_at_save = day, today_at_log = day, now_at_log = day @ '' 12:00:00''\<rparr>"

text \<open>The log file of \<open>day\<close> holds the header and \<open>n\<close> rows, or is missing when \<open>n = 0\<close>.\<close>

definition log_has :: "files \<Rightarrow> string \<Rightarrow> nat \<Rightarrow> bool" where
  "log_has fs day n =
     (if n = 0 then fs (log_filename day) = None
      else \<exists>rows. length rows = n \<and> fs (log_filename day) = Some (LogHeader # map LogRow rows))"

section \<open>Alignment leaves no gap\<close>

lemma length_ffill_from: "length (ffill_from p xs) = length xs"
  by (induction p xs rule: ffill_from.induct) simp_all

lemma length_bfill: "length (bfill xs) = length xs"
proof (induction xs)
  case Nil
  show ?case by simp
next
  case (Cons x xs)
  then show ?case by (cases x; cases "bfill xs") auto
qed

lemma ffill_from_Some: "None \<notin> set (ffill_from (Some v) xs)"
proof (induction xs arbitrary: v)
  case Nil
  show ?case by simp
next
  case (Cons x xs)
  show ?case using Cons.IH by (cases x) auto
qed

lemma ffill_from_None:
  "\<exists>k zs. ffill_from None xs = replicate k None @ zs \<and> None \<notin> set zs
     \<and> ((\<exists>v. Some v \<in> set xs) \<longrightarrow> zs \<noteq> [])"
proof (induction xs)
  case Nil
  show ?case by simp
next
  case (Cons x xs)
  show ?case
  proof (cases x)
    case None
    from Cons.IH obtain k zs where
      h: "ffill_from None xs = replicate k None @ zs" "None \<notin> set zs"
         "(\<exists>v. Some v \<in> set xs) \<longrightarrow> zs \<noteq> []" by blast
    have "ffill_from None (x # xs) = replicate (Suc k) None @ zs"
      using None h(1) by simp
    moreover have "(\<exists>v. Some v \<in> set (x # xs)) \<longrightarrow> zs \<noteq> []"
      using None h(3) by auto
    ultimately show ?thesis using h(2) by blast
  next
    case (Some v)
    have "ffill_from None (x # xs) = replicate 0 None @ (Some v # ffill_from (Some v) xs)"
      using Some by simp
    moreover have "None \<notin> set (Some v # ffill_from (Some v) xs)"
      using ffill_from_Some by simp
    ultimately show ?thesis by blast
  qed
qed

lemma bfill_full: "None \<notin> set zs \<Longrightarrow> bfill zs = zs"
proof (induction zs)
  case Nil
  show ?case by simp
next
  case (Cons z zs)
  then show ?case by (cases z) auto
qed

lemma bfill_leading:
  "None \<notin> set zs \<Longrightarrow> zs \<noteq> [] \<Longrightarrow> bfill (replicate k None @ zs) = replicate k (hd zs) @ zs"
proof (induction k)
  case 0
  then show ?case by (simp add: bfill_full)
next
  case (Suc k)
  then show ?case by (cases k; cases zs) (simp_all add: bfill_full)
qed

lemma fill_no_gap:
  assumes "Some v \<in> set xs"
  shows "None \<notin> set (bfill (ffill xs))"
proof -
  obtain k zs where h: "ffill xs = replicate k None @ zs" "None \<notin> set zs" "zs \<noteq> []"
    using ffill_from_None [of xs] assms unfolding ffill_def by blast
  have "hd zs \<in> set zs" using h(3) by simp
  then have "hd zs \<noteq> None" using h(2) by metis
  then show ?thesis using h by (auto simp: bfill_leading)
qed

lemma set_union_index: "set (union_index a b) = set a \<union> set b"
  by (auto simp: union_index_def)

lemma reindex_length: "reindex s idx = Inr col \<Longrightarrow> length col = length idx"
  by (auto simp: reindex_def split: if_splits)

lemma reindex_has_value:
  assumes "reindex s idx = Inr col" "s \<noteq> []" "fst ` set s \<subseteq> set idx"
  shows "\<exists>v. Some v \<in> set col"
proof (cases "map fst s = idx")
  case True
  then have "col = map (\<lambda>r. Some (snd r)) s" using assms(1) by (simp add: reindex_def)
  moreover obtain r rs where "s = r # rs" using assms(2) by (cases s) auto
  ultimately show ?thesis by auto
next
  case False
  then have col: "col = map (map_of s) idx"
    using assms(1) by (auto simp: reindex_def split: if_splits)
  obtain r rs where s: "s = r # rs" using assms(2) by (cases s) auto
  have "fst r \<in> set idx" using assms(3) s by auto
  moreover have "map_of s (fst r) = Some (snd r)" using s by simp
  ultimately have "Some (snd r) \<in> set col" unfolding col by force
  then show ?thesis by blast
qed

lemma reindex_Inl:
  "reindex s idx = Inl x \<Longrightarrow> x = DuplicateIndexError \<and> \<not> distinct (map fst s)"
  by (auto simp: reindex_def split: if_splits)

lemma no_None_nth: "None \<notin> set xs \<Longrightarrow> i < length xs \<Longrightarrow> \<exists>v. xs ! i = Some v"
  by (metis not_None_eq nth_mem)

text \<open>
  Claim C3.  For two non-empty raw price series, the aligned frame (outer join on the
  timestamp, then forward fill, then backward fill) has no missing value: its index holds
  exactly the timestamps of the two series, and at every position of the index both columns
  hold a price.  The join fails only on duplicate timestamps, which a price series does not
  have.
\<close>

theorem aligned_no_gap:
  assumes "btc_df \<noteq> []" and "eth_df \<noteq> []"
  shows "case aligned btc_df eth_df of
           Inl x \<Rightarrow> x = DuplicateIndexError
                      \<and> \<not> (distinct (map fst btc_df) \<and> distinct (map fst eth_df))
         | Inr d \<Rightarrow> set (index d) = fst ` set btc_df \<union> fst ` set eth_df
                      \<and> length (btc_usd d) = length (index d)
                      \<and> length (eth_usd d) = length (index d)
                      \<and> (\<forall>i < length (index d).
                            \<exists>b e. btc_usd d ! i = Some b \<and> eth_usd d ! i = Some e)"
proof (cases "aligned btc_df eth_df")
  case (Inl x)
  then have "x = DuplicateIndexError
      \<and> \<not> (distinct (map fst btc_df) \<and> distinct (map fst eth_df))"
    by (auto simp: aligned_def concat_prices_def Let_def split: sum.splits dest: reindex_Inl)
  then show ?thesis using Inl by simp
next
  case (Inr d)
  define idx where "idx = union_index (map fst btc_df) (map fst eth_df)"
  from Inr obtain bc ec where
    bc: "reindex btc_df idx = Inr bc" and ec: "reindex eth_df idx = Inr ec" and
    d: "d = fill_frame \<lparr>index = idx, btc_usd = bc, eth_usd = ec\<rparr>"
    by (auto simp: aligned_def concat_prices_def Let_def idx_def split: sum.splits)
  have sidx: "set idx = fst ` set btc_df \<union> fst ` set eth_df"
    by (simp add: idx_def set_union_index)
  have lb: "length (btc_usd d) = length idx"
    using reindex_length [OF bc] by (simp add: d fill_frame_def length_bfill ffill_def length_ffill_from)
  have le: "length (eth_usd d) = length idx"
    using reindex_length [OF ec] by (simp add: d fill_frame_def length_bfill ffill_def length_ffill_from)
  obtain v where "Some v \<in> set bc"
    using reindex_has_value [OF bc assms(1)] sidx by auto
  then have nb: "None \<notin> set (btc_usd d)"
    by (simp add: d fill_frame_def fill_no_gap)
  obtain w where "Some w \<in> set ec"
    using reindex_has_value [OF ec assms(2)] sidx by auto
  then have ne: "None \<notin> set (eth_usd d)"
    by (simp add: d fill_frame_def fill_no_gap)
  have i: "index d = idx" by (simp add: d fill_frame_def)
  have "\<forall>i < length (index d). \<exists>b e. btc_usd d ! i = Some b \<and> eth_usd d ! i = Some e"
    using no_None_nth [OF nb] no_None_nth [OF ne] lb le i by metis
  then show ?thesis using Inr sidx lb le i by simp
qed

theorem aligned_no_gap_witness:
  "case aligned [(1, 10), (3, 30)] [(2, 5), (3, 6), (4, 7)] of
     Inl x \<Rightarrow> False
   | Inr d \<Rightarrow> index d = [1, 2, 3, 4]
       \<and> btc_usd d = [Some 10, Some 10, Some 30, Some 30]
       \<and> eth_usd d = [Some 5, Some 5, Some 6, Some 7]
       \<and> set (index d) = {1, 2, 3, 4}
       \<and> btc_usd d ! 1 \<noteq> None \<and> eth_usd d ! 0 \<noteq> None"
  using aligned_no_gap [of "[(1, 10), (3, 30)]" "[(2, 5), (3, 6), (4, 7)]"]
  by (simp add: aligned_def concat_prices_def union_index_def reindex_def fill_frame_def
      ffill_def insert_commute)

section \<open>Normalization\<close>

lemmas b64_defs =
  round53_def scale_down.simps scale_up.simps round_half_even_def fround_def normalize_b64_def
  compute_portfolios_b64_def portfolios_of_b64_def scale_b64_def

lemma round53_1: "round53 1 = 1"
  by (simp add: b64_defs)

text \<open>
  Claim C1.  For every frame whose first BTC and first ETH value are present and nonzero,
  the two normalized single-asset series are computed and each starts with exactly 1, in
  exact arithmetic and with the rounding of binary64 alike.
\<close>

theorem normalized_first_is_one:
  assumes "btc_usd d = Some b0 # bs" and "eth_usd d = Some e0 # es"
    and "b0 \<noteq> 0" and "e0 \<noteq> 0"
  shows "(\<exists>p. compute_portfolios d = Inr p \<and> p_btc p ! 0 = Fin 1 \<and> p_eth p ! 0 = Fin 1)
       \<and> (\<exists>p. compute_portfolios_b64 d = Inr p \<and> p_btc p ! 0 = Fin 1 \<and> p_eth p ! 0 = Fin 1)"
  using assms
  by (simp add: compute_portfolios_def normalize_def compute_portfolios_b64_def
      normalize_b64_def iloc_first_def fround_def round53_1)

theorem normalized_first_is_one_witness:
  "(40000::real) \<noteq> 0 \<and> (2500::real) \<noteq> 0
   \<and> (\<exists>p. compute_portfolios
            \<lparr>index = [0, 1], btc_usd = [Some 40000, Some 42000],
             eth_usd = [Some 2500, Some 2000]\<rparr> = Inr p
          \<and> p_btc p ! 0 = Fin 1 \<and> p_eth p ! 0 = Fin 1)
   \<and> (\<exists>p. compute_portfolios_b64
            \<lparr>index = [0, 1], btc_usd = [Some 40000, Some 42000],
             eth_usd = [Some 2500, Some 2000]\<rparr> = Inr p
          \<and> p_btc p ! 0 = Fin 1 \<and> p_eth p ! 0 = Fin 1)"
  using normalized_first_is_one
    [of "\<lparr>index = [0, 1], btc_usd = [Some 40000, Some 42000], eth_usd = [Some 2500, Some 2000]\<rparr>"
        40000 "[Some 42000]" 2500 "[Some 2000]"]
  by simp
















text \<open>
  The factor has to be applied exactly.  When the products \<open>c * p\<close> are themselves rounded
  to binary64, the series at hand is no longer a multiple of the original one, and the
  normalized values can differ in the last place: for the series \<open>[1, 3]\<close> and the factor
  \<open>0.1\<close> (the binary64 number nearest to \<open>1/10\<close>) they are \<open>[1, 3]\<close> before and
  \<open>[1, 3 + 2^-51]\<close> after.
\<close>

lemma rounded_products_not_invariant:
  "round53 (1/10) = 3602879701896397 / 2 ^ 55
   \<and> scale_b64 (round53 (1/10)) [(0, 1), (3600000, 3)]
       = [(0, 3602879701896397 / 2 ^ 55), (3600000, 1351079888211149 / 2 ^ 52)]
   \<and> portfolios_of_b64 [(0, 1), (3600000, 3)] [(0, 1), (3600000, 1)]
       = Inr \<lparr>p_index = [0, 3600000], p_btc = [Fin 1, Fin 3], p_eth = [Fin 1, Fin 1],
              p_mix = [Fin 1, Fin 2]\<rparr>
   \<and> portfolios_of_b64 (scale_b64 (round53 (1/10)) [(0, 1), (3600000, 3)]) [(0, 1), (3600000, 1)]
       = Inr \<lparr>p_index = [0, 3600000], p_btc = [Fin 1, Fin (6755399441055745 / 2 ^ 51)],
              p_eth = [Fin 1, Fin 1], p_mix = [Fin 1, Fin 2]\<rparr>"
proof -
  have c: "round53 (1/10) = 3602879701896397 / 2 ^ 55"
    by (simp add: b64_defs)
  have s: "scale_b64 (round53 (1/10)) [(0, 1), (3600000, 3)]
       = [(0, 3602879701896397 / 2 ^ 55), (3600000, 1351079888211149 / 2 ^ 52)]"
    unfolding c by (simp add: b64_defs)
  have a: "portfolios_of_b64 [(0, 1), (3600000, 3)] [(0, 1), (3600000, 1)]
       = Inr \<lparr>p_index = [0, 3600000], p_btc = [Fin 1, Fin 3], p_eth = [Fin 1, Fin 1],
              p_mix = [Fin 1, Fin 2]\<rparr>"
    by (simp add: b64_defs aligned_def concat_prices_def union_index_def reindex_def
        fill_frame_def ffill_def iloc_first_def)
  have b: "portfolios_of_b64 [(0, 3602879701896397 / 2 ^ 55), (3600000, 1351079888211149 / 2 ^ 52)]
          [(0, 1), (3600000, 1)]
       = Inr \<lparr>p_index = [0, 3600000], p_btc = [Fin 1, Fin (6755399441055745 / 2 ^ 51)],
              p_eth = [Fin 1, Fin 1], p_mix = [Fin 1, Fin 2]\<rparr>"
    by (simp add: b64_defs aligned_def concat_prices_def union_index_def reindex_def
        fill_frame_def ffill_def iloc_first_def)
  show ?thesis using c s a b by simp
qed

section \<open>Trend smoothing\<close>

lemma ewm_loop_rec:
  "ewm_loop a (Some w) 1 (map Some xs) = map Some (ema_rec a w xs)"
proof (induction xs arbitrary: w)
  case Nil
  show ?case by simp
next
  case (Cons x xs)
  define w' where "w' = (if w \<noteq> x then (1 * (1 - a) * w + a * x) / (1 * (1 - a) + a) else w)"
  have "w' = a * x + (1 - a) * w"
    by (simp add: w'_def algebra_simps)
  moreover have "ewm_loop a (Some w) 1 (map Some (x # xs)) = Some w' # ewm_loop a (Some w') 1 (map Some xs)"
    by (simp add: Let_def w'_def)
  ultimately show ?case using Cons.IH by simp
qed

lemma ema_rec_length: "length (ema_rec a w xs) = length xs"
  by (induction xs arbitrary: w) simp_all

lemma ema_rec_nth:
  "0 < i \<Longrightarrow> i < Suc (length xs) \<Longrightarrow>
     (w # ema_rec a w xs) ! i = a * xs ! (i - 1) + (1 - a) * (w # ema_rec a w xs) ! (i - 1)"
proof (induction xs arbitrary: w i)
  case Nil
  then show ?case by simp
next
  case (Cons x xs)
  show ?case
  proof (cases "i = 1")
    case True
    then show ?thesis by simp
  next
    case False
    then obtain j where j: "i = Suc j" "0 < j" using Cons.prems by (cases i) auto
    have "j < Suc (length xs)" using Cons.prems j by simp
    from Cons.IH [OF j(2) this, of "a * x + (1 - a) * w"] show ?thesis
      using j by (cases j) simp_all
  qed
qed

lemma ema_Some: "ema (map Some (x # xs)) = map Some (x # ema_rec (1/4) x xs)"
  by (simp add: ema_def ewm_mean_def alpha_of_span_def ema_period_def ewm_loop_rec)

text \<open>
  Claim C2.  The span is 7, so the decay is \<open>2 / (7 + 1) = 1/4\<close>.  On a price column
  without missing cells the smoothed column \<open>out\<close> has the length of the input,
  \<open>out[0] = price[0]\<close> and \<open>out[i] = alpha * price[i] + (1 - alpha) * out[i - 1]\<close>
  for every \<open>i > 0\<close>.  On \<open>[100, 100, 100]\<close> it is \<open>[100, 100, 100]\<close> and on
  \<open>[100, 200]\<close> it is \<open>[100, 125]\<close>.
\<close>

theorem ema_recursion:
  "ema_period = 7 \<and> alpha_of_span ema_period = 1/4
   \<and> (\<exists>out. ema (map Some price) = map Some out \<and> length out = length price
        \<and> (price \<noteq> [] \<longrightarrow> out ! 0 = price ! 0)
        \<and> (\<forall>i. 0 < i \<and> i < length price \<longrightarrow>
              out ! i = alpha_of_span ema_period * price ! i
                        + (1 - alpha_of_span ema_period) * out ! (i - 1)))
   \<and> ema [Some 100, Some 100, Some 100] = [Some 100, Some 100, Some 100]
   \<and> ema [Some 100, Some 200] = [Some 100, Some 125]"
proof -
  have a: "alpha_of_span ema_period = 1/4"
    by (simp add: alpha_of_span_def ema_period_def)
  have ex1: "ema [Some 100, Some 100, Some 100] = [Some 100, Some 100, Some 100]"
    by (simp add: ema_def ewm_mean_def a)
  have ex2: "ema [Some 100, Some 200] = [Some 100, Some 125]"
    by (simp add: ema_def ewm_mean_def a)
  have "\<exists>out. ema (map Some price) = map Some out \<and> length out = length price
        \<and> (price \<noteq> [] \<longrightarrow> out ! 0 = price ! 0)
        \<and> (\<forall>i. 0 < i \<and> i < length price \<longrightarrow>
              out ! i = alpha_of_span ema_period * price ! i
                        + (1 - alpha_of_span ema_period) * out ! (i - 1))"
  proof (cases price)
    case Nil
    then show ?thesis by (simp add: ema_def ewm_mean_def)
  next
    case (Cons x xs)
    let ?out = "x # ema_rec (1/4) x xs"
    have "ema (map Some price) = map Some ?out" using Cons ema_Some by simp
    moreover have "length ?out = length price" using Cons by (simp add: ema_rec_length)
    moreover have "?out ! 0 = price ! 0" using Cons by simp
    moreover have "\<forall>i. 0 < i \<and> i < length price \<longrightarrow>
              ?out ! i = alpha_of_span ema_period * price ! i
                        + (1 - alpha_of_span ema_period) * ?out ! (i - 1)"
    proof (intro allI impI)
      fix i assume i: "0 < i \<and> i < length price"
      then have "i < Suc (length xs)" using Cons by simp
      from ema_rec_nth [of i xs x "1/4"] i this
      have "?out ! i = 1/4 * xs ! (i - 1) + (1 - 1/4) * ?out ! (i - 1)" by blast
      moreover have "price ! i = xs ! (i - 1)" using Cons i by (cases i) simp_all
      ultimately show "?out ! i = alpha_of_span ema_period * price ! i
                        + (1 - alpha_of_span ema_period) * ?out ! (i - 1)"
        by (simp only: a)
    qed
    ultimately show ?thesis by blast
  qed
  then show ?thesis using a ex1 ex2 by (simp add: ema_period_def)
qed

theorem ema_recursion_witness:
  "ema [Some 8, Some 16, Some 0] = [Some 8, Some 10, Some (15/2)]
   \<and> (\<exists>out. ema (map Some [8, 16, 0]) = map Some out \<and> length out = 3
        \<and> out ! 0 = 8 \<and> out ! 1 = 1/4 * 16 + 3/4 * out ! 0 \<and> out ! 2 = 1/4 * 0 + 3/4 * out ! 1)"
proof -
  obtain out where o: "ema (map Some [8, 16, 0]) = map Some out" "length out = length [8, 16, 0::real]"
     "[8, 16, 0::real] \<noteq> [] \<longrightarrow> out ! 0 = [8, 16, 0] ! 0"
     "\<forall>i. 0 < i \<and> i < length [8, 16, 0::real] \<longrightarrow>
              out ! i = alpha_of_span ema_period * [8, 16, 0] ! i
                        + (1 - alpha_of_span ema_period) * out ! (i - 1)"
    using ema_recursion [of "[8, 16, 0]"] by blast
  have a: "alpha_of_span ema_period = 1/4"
    by (simp add: alpha_of_span_def ema_period_def)
  have "out ! 1 = 1/4 * 16 + 3/4 * out ! 0" using o(4) [rule_format, of 1] by (simp add: a)
  moreover have "out ! 2 = 1/4 * 0 + 3/4 * out ! 1" using o(4) [rule_format, of 2] by (simp add: a)
  moreover have "ema [Some 8, Some 16, Some 0] = [Some 8, Some 10, Some (15/2)]"
    by (simp add: ema_def ewm_mean_def a)
  ultimately show ?thesis using o(1,2,3) by auto
qed

section \<open>Paths and files\<close>

lemma log_not_snapshot: "log_filename d \<noteq> snapshot_file symbol d'"
  by (simp add: log_filename_def snapshot_file_def raw_data_dir_def)

lemma log_not_raw: "\<not> in_raw_data_dir (log_filename d)"
  by (simp add: in_raw_data_dir_def log_filename_def raw_data_dir_def)

lemma snapshot_in_raw: "in_raw_data_dir (snapshot_file symbol d)"
  by (simp add: in_raw_data_dir_def snapshot_file_def raw_data_dir_def)

lemma snapshot_file_inj:
  "(a = ''BTCUSDT'' \<or> a = ''ETHUSDT'') \<Longrightarrow> (b = ''BTCUSDT'' \<or> b = ''ETHUSDT'') \<Longrightarrow>
     snapshot_file a d = snapshot_file b d' \<longleftrightarrow> a = b \<and> d = d'"
  by (auto simp: snapshot_file_def raw_data_dir_def)

lemma log_filename_inj: "log_filename d = log_filename d' \<longleftrightarrow> d = d'"
  by (simp add: log_filename_def)

lemma read_csv_to_csv: "snapshot_rows (map (\<lambda>r. SnapshotRow (fst r) (snd r)) df) = Some df"
  by (induction df) auto

lemma snapshot_rows_Some:
  "snapshot_rows ls = Some df \<Longrightarrow> ls = map (\<lambda>r. SnapshotRow (fst r) (snd r)) df"
  by (induction ls arbitrary: df rule: snapshot_rows.induct) (auto split: option.splits)

lemma read_csv_iff: "read_csv fs path = Inr df \<longleftrightarrow> fs path = Some (to_csv df)"
  by (auto simp: read_csv_def to_csv_def read_csv_to_csv
      split: option.splits list.splits csv_line.splits dest: snapshot_rows_Some)

lemma analyse_files_other:
  "path \<noteq> log_filename (today_at_log e) \<Longrightarrow> files_out (analyse e fs evs b d) path = fs path"
  by (simp add: analyse_def Let_def split: sum.splits)

lemma analyse_shown_prefix: "take (length evs) (shown (analyse e fs evs b d)) = evs"
  by (simp add: analyse_def Let_def split: sum.splits)

lemma is_banner_banner: "is_banner (banner m)"
  by (simp add: banner_def)

lemma filter_charts: "filter is_http_get (charts d p) = []" "filter is_banner (charts d p) = []"
  by (simp_all add: charts_def)

lemma filter_metric_events:
  "filter is_http_get (metric_events m) = []" "filter is_banner (metric_events m) = [banner m]"
  "filter is_chart (metric_events m) = []"
  by (simp_all add: metric_events_def banner_def)

lemma analyse_http:
  "filter is_http_get (shown (analyse e fs evs b d)) = filter is_http_get evs"
  by (simp add: analyse_def Let_def filter_charts filter_metric_events split: sum.splits)

lemma load_data_freeze:
  assumes "freeze_mode e"
  shows "load_data e fs =
      (case read_csv fs (snapshot_file ''BTCUSDT'' (snapshot_choice e)) of
           Inl x \<Rightarrow> Inl \<lparr>files_out = fs, shown = [SidebarInfo (snapshot_choice e)], ended = Raised x\<rparr>
         | Inr btc_df \<Rightarrow>
             (case read_csv fs (snapshot_file ''ETHUSDT'' (snapshot_choice e)) of
                Inl x \<Rightarrow> Inl \<lparr>files_out = fs, shown = [SidebarInfo (snapshot_choice e)], ended = Raised x\<rparr>
              | Inr eth_df \<Rightarrow> Inr (fs, [SidebarInfo (snapshot_choice e)], btc_df, eth_df)))"
  using assms by (simp add: load_data_def Let_def)

lemma get_binance_data_failure:
  "http_failure (http_get e symbol) \<Longrightarrow> \<exists>x. get_binance_data e symbol = Inl x"
  by (auto simp: http_failure_def get_binance_data_def split: http_result.splits)

lemma run_live_failed:
  assumes "\<not> freeze_mode e"
    and "(\<exists>x. get_binance_data e ''BTCUSDT'' = Inl x) \<or> (\<exists>x. get_binance_data e ''ETHUSDT'' = Inl x)"
  shows "\<exists>x. run e fs = \<lparr>files_out = fs, shown = [SidebarSuccess, HttpGet ''BTCUSDT'', StError x],
                         ended = Stopped\<rparr>
           \<or> run e fs = \<lparr>files_out = fs,
                         shown = [SidebarSuccess, HttpGet ''BTCUSDT'', HttpGet ''ETHUSDT'', StError x],
                         ended = Stopped\<rparr>"
  using assms
  by (cases "get_binance_data e ''BTCUSDT''"; cases "get_binance_data e ''ETHUSDT''")
     (auto simp: run_def load_data_def Let_def)

lemma run_live_ok:
  assumes "\<not> freeze_mode e"
    and "get_binance_data e ''BTCUSDT'' = Inr b" and "get_binance_data e ''ETHUSDT'' = Inr d"
  shows "run e fs = analyse e
           (fs(snapshot_file ''BTCUSDT'' (today_at_save e) \<mapsto> to_csv b,
               snapshot_file ''ETHUSDT'' (today_at_save e) \<mapsto> to_csv d))
           [SidebarSuccess, HttpGet ''BTCUSDT'', HttpGet ''ETHUSDT''] b d"
  using assms by (simp add: run_def load_data_def Let_def)

lemmas eval_defs =
  run_def load_data_def analyse_def live_env_def frozen_env_def freeze_mode_def
  get_binance_data_def aligned_def concat_prices_def union_index_def reindex_def
  fill_frame_def ffill_def compute_portfolios_def normalize_def iloc_first_def iloc_last_def
  compute_metrics_def log_entry_def write_log_def charts_def metric_events_def banner_def
  snapshot_file_def log_filename_def raw_data_dir_def to_csv_def read_csv_def fsub_def
  ema_def ewm_mean_def alpha_of_span_def ema_period_def Let_def

section \<open>The leading-asset signal\<close>

lemma nonempty_portfolios:
  assumes "compute_portfolios d = Inr p"
  shows "btc_usd d \<noteq> [] \<and> eth_usd d \<noteq> [] \<and> p_btc p \<noteq> [] \<and> p_eth p \<noteq> [] \<and> p_mix p \<noteq> []"
  using assms
  by (cases "btc_usd d"; cases "eth_usd d")
     (auto simp: compute_portfolios_def normalize_def iloc_first_def)

lemma analyse_completes:
  assumes "aligned b d = Inr data" and "compute_portfolios data = Inr p"
  shows "\<exists>m row. compute_metrics p = Inr m \<and> log_entry e data p m = Inr row
      \<and> eth_last m = last (p_eth p) \<and> btc_last m = last (p_btc p)
      \<and> eth_btc_ratio m = fdiv (last (p_eth p)) (last (p_btc p))
      \<and> analyse e fs evs b d =
          \<lparr>files_out = fs(log_filename (today_at_log e) \<mapsto> write_log fs (log_filename (today_at_log e)) row),
           shown = evs @ charts data p @ metric_events m
                     @ [DownloadButton (log_filename (today_at_log e)) (write_log fs (log_filename (today_at_log e)) row),
                        LoggedTo (log_filename (today_at_log e)), Caption],
           ended = Completed\<rparr>"
  using assms nonempty_portfolios [OF assms(2)]
  by (simp add: analyse_def compute_metrics_def log_entry_def iloc_last_def Let_def)

lemma fgt_irrefl: "\<not> fgt x x"
  by (cases x) simp_all

text \<open>
  Claim C4.  A run that gets as far as the portfolio table runs to its end and shows exactly
  one banner: "ETH Recovery" when the last normalized ETH value is greater than the last
  normalized BTC value (a strict comparison), "BTC Leading" otherwise.  When the two values
  are equal the banner is "BTC Leading".  The banner carries the ratio ETH over BTC.
\<close>

theorem leading_signal:
  assumes "portfolios_of btc_df eth_df = Inr p"
    and "filter is_banner evs = []"
  shows "ended (analyse e fs evs btc_df eth_df) = Completed
       \<and> filter is_banner (shown (analyse e fs evs btc_df eth_df))
           = [if fgt (last (p_eth p)) (last (p_btc p))
              then EthRecovery (fdiv (last (p_eth p)) (last (p_btc p)))
              else BtcLeading (fdiv (last (p_eth p)) (last (p_btc p)))]
       \<and> (last (p_eth p) = last (p_btc p)
            \<longrightarrow> filter is_banner (shown (analyse e fs evs btc_df eth_df))
                  = [BtcLeading (fdiv (last (p_eth p)) (last (p_btc p)))])"
proof -
  from assms(1) obtain data where
    data: "aligned btc_df eth_df = Inr data" "compute_portfolios data = Inr p"
    by (auto simp: portfolios_of_def split: sum.splits)
  from analyse_completes [OF data, of e fs evs] obtain m row where
    m: "eth_last m = last (p_eth p)" "btc_last m = last (p_btc p)"
       "eth_btc_ratio m = fdiv (last (p_eth p)) (last (p_btc p))" and
    a: "analyse e fs evs btc_df eth_df =
          \<lparr>files_out = fs(log_filename (today_at_log e) \<mapsto> write_log fs (log_filename (today_at_log e)) row),
           shown = evs @ charts data p @ metric_events m
                     @ [DownloadButton (log_filename (today_at_log e)) (write_log fs (log_filename (today_at_log e)) row),
                        LoggedTo (log_filename (today_at_log e)), Caption],
           ended = Completed\<rparr>"
    by blast
  have "filter is_banner (shown (analyse e fs evs btc_df eth_df)) = [banner m]"
    unfolding a using assms(2) by (simp add: filter_charts filter_metric_events)
  then show ?thesis using m a by (simp add: banner_def fgt_irrefl)
qed

theorem leading_signal_witness:
  "portfolios_of [(0, 100), (3600000, 110)] [(0, 100), (3600000, 115)]
     = Inr \<lparr>p_index = [0, 3600000], p_btc = [Fin 1, Fin (110/100)], p_eth = [Fin 1, Fin (115/100)],
            p_mix = [Fin 1, Fin (9/8)]\<rparr>
   \<and> filter is_banner
        (shown (analyse (frozen_env ''2024-05-01'' ''2024-05-02'') Map.empty []
                  [(0, 100), (3600000, 110)] [(0, 100), (3600000, 115)]))
       = [EthRecovery (Fin (115/110))]
   \<and> filter is_banner
        (shown (analyse (frozen_env ''2024-05-01'' ''2024-05-02'') Map.empty []
                  [(0, 100), (3600000, 110)] [(0, 100), (3600000, 110)]))
       = [BtcLeading (Fin 1)]"
proof -
  let ?e = "frozen_env ''2024-05-01'' ''2024-05-02''"
  have p1: "portfolios_of [(0, 100), (3600000, 110)] [(0, 100), (3600000, 115)]
     = Inr \<lparr>p_index = [0, 3600000], p_btc = [Fin 1, Fin (110/100)], p_eth = [Fin 1, Fin (115/100)],
            p_mix = [Fin 1, Fin (9/8)]\<rparr>"
    by (simp add: portfolios_of_def aligned_def concat_prices_def union_index_def reindex_def
        fill_frame_def ffill_def compute_portfolios_def normalize_def iloc_first_def)
  have p2: "portfolios_of [(0, 100), (3600000, 110)] [(0, 100), (3600000, 110)]
     = Inr \<lparr>p_index = [0, 3600000], p_btc = [Fin 1, Fin (110/100)], p_eth = [Fin 1, Fin (110/100)],
            p_mix = [Fin 1, Fin (110/100)]\<rparr>"
    by (simp add: portfolios_of_def aligned_def concat_prices_def union_index_def reindex_def
        fill_frame_def ffill_def compute_portfolios_def normalize_def iloc_first_def)
  have n: "filter is_banner [] = []" by simp
  show ?thesis
    using leading_signal [OF p1 n, of ?e Map.empty] leading_signal [OF p2 n, of ?e Map.empty] p1
    by simp
qed

section \<open>Freeze mode\<close>

text \<open>
  Claim C8.  When a snapshot date is chosen, the run sends no request, every file of the
  snapshot directory is after the run what it was before (none is written, none is added),
  and when the two snapshot files of the chosen date hold the series \<open>btc_df\<close> and
  \<open>eth_df\<close> the run is the analysis of exactly these two series.
\<close>

theorem freeze_mode_reads_only:
  assumes "freeze_mode e"
  shows "filter is_http_get (shown (run e fs)) = []
       \<and> (\<forall>path. in_raw_data_dir path \<longrightarrow> files_out (run e fs) path = fs path)
       \<and> (\<forall>btc_df eth_df.
             fs (snapshot_file ''BTCUSDT'' (snapshot_choice e)) = Some (to_csv btc_df)
             \<and> fs (snapshot_file ''ETHUSDT'' (snapshot_choice e)) = Some (to_csv eth_df)
             \<longrightarrow> run e fs = analyse e fs [SidebarInfo (snapshot_choice e)] btc_df eth_df)"
proof (intro conjI allI impI)
  show "filter is_http_get (shown (run e fs)) = []"
    by (simp add: run_def load_data_freeze [OF assms] analyse_http split: sum.splits)
next
  fix path assume "in_raw_data_dir path"
  then have "path \<noteq> log_filename (today_at_log e)" using log_not_raw by auto
  then show "files_out (run e fs) path = fs path"
    by (simp add: run_def load_data_freeze [OF assms] analyse_files_other split: sum.splits)
next
  fix btc_df eth_df
  assume "fs (snapshot_file ''BTCUSDT'' (snapshot_choice e)) = Some (to_csv btc_df)
             \<and> fs (snapshot_file ''ETHUSDT'' (snapshot_choice e)) = Some (to_csv eth_df)"
  then have "read_csv fs (snapshot_file ''BTCUSDT'' (snapshot_choice e)) = Inr btc_df"
    and "read_csv fs (snapshot_file ''ETHUSDT'' (snapshot_choice e)) = Inr eth_df"
    by (simp_all add: read_csv_iff)
  then show "run e fs = analyse e fs [SidebarInfo (snapshot_choice e)] btc_df eth_df"
    by (simp add: run_def load_data_freeze [OF assms])
qed

theorem freeze_mode_reads_only_witness:
  "freeze_mode (frozen_env ''2024-05-01'' ''2024-05-02'')
   \<and> filter is_http_get
        (shown (run (frozen_env ''2024-05-01'' ''2024-05-02'')
           [snapshot_file ''BTCUSDT'' ''2024-05-01'' \<mapsto> to_csv [(0, 100), (3600000, 110)],
            snapshot_file ''ETHUSDT'' ''2024-05-01'' \<mapsto> to_csv [(0, 100), (3600000, 115)]])) = []
   \<and> in_raw_data_dir (snapshot_file ''BTCUSDT'' ''2024-05-01'')
   \<and> files_out (run (frozen_env ''2024-05-01'' ''2024-05-02'')
           [snapshot_file ''BTCUSDT'' ''2024-05-01'' \<mapsto> to_csv [(0, 100), (3600000, 110)],
            snapshot_file ''ETHUSDT'' ''2024-05-01'' \<mapsto> to_csv [(0, 100), (3600000, 115)]])
        (snapshot_file ''BTCUSDT'' ''2024-05-01'')
       = Some (to_csv [(0, 100), (3600000, 110)])
   \<and> run (frozen_env ''2024-05-01'' ''2024-05-02'')
           [snapshot_file ''BTCUSDT'' ''2024-05-01'' \<mapsto> to_csv [(0, 100), (3600000, 110)],
            snapshot_file ''ETHUSDT'' ''2024-05-01'' \<mapsto> to_csv [(0, 100), (3600000, 115)]]
       = analyse (frozen_env ''2024-05-01'' ''2024-05-02'')
           [snapshot_file ''BTCUSDT'' ''2024-05-01'' \<mapsto> to_csv [(0, 100), (3600000, 110)],
            snapshot_file ''ETHUSDT'' ''2024-05-01'' \<mapsto> to_csv [(0, 100), (3600000, 115)]]
           [SidebarInfo ''2024-05-01''] [(0, 100), (3600000, 110)] [(0, 100), (3600000, 115)]"
proof -
  let ?e = "frozen_env ''2024-05-01'' ''2024-05-02''"
  let ?fs = "[snapshot_file ''BTCUSDT'' ''2024-05-01'' \<mapsto> to_csv [(0, 100), (3600000, 110)],
            snapshot_file ''ETHUSDT'' ''2024-05-01'' \<mapsto> to_csv [(0, 100), (3600000, 115)]]"
  have f: "freeze_mode ?e" by (simp add: frozen_env_def freeze_mode_def)
  have c: "snapshot_choice ?e = ''2024-05-01''" by (simp add: frozen_env_def)
  have r: "in_raw_data_dir (snapshot_file ''BTCUSDT'' ''2024-05-01'')" by (rule snapshot_in_raw)
  have b: "?fs (snapshot_file ''BTCUSDT'' ''2024-05-01'') = Some (to_csv [(0, 100), (3600000, 110)])"
    "?fs (snapshot_file ''ETHUSDT'' ''2024-05-01'') = Some (to_csv [(0, 100), (3600000, 115)])"
    by (simp_all add: snapshot_file_inj)
  note t = freeze_mode_reads_only [OF f, of ?fs, unfolded c]
  have 1: "filter is_http_get (shown (run ?e ?fs)) = []" using t by blast
  have 2: "files_out (run ?e ?fs) (snapshot_file ''BTCUSDT'' ''2024-05-01'')
      = ?fs (snapshot_file ''BTCUSDT'' ''2024-05-01'')"
    using t r by blast
  have 3: "run ?e ?fs = analyse ?e ?fs [SidebarInfo ''2024-05-01'']
      [(0, 100), (3600000, 110)] [(0, 100), (3600000, 115)]"
    using t b by blast
  show ?thesis using f 1 2 3 r b(1) by simp
qed

section \<open>Failure of the acquisition\<close>

lemma get_binance_data_as_success:
  "get_binance_data (e\<lparr>http_get := \<lambda>symbol. as_success (http_get e symbol)\<rparr>) symbol
     = get_binance_data e symbol"
  by (cases "http_get e symbol") (auto simp: get_binance_data_def as_success_def)

lemma log_entry_http: "log_entry (e\<lparr>http_get := h\<rparr>) d p m = log_entry e d p m"
  by (auto simp: log_entry_def split: sum.splits)

lemma analyse_http_get:
  "analyse (e\<lparr>http_get := h\<rparr>) fs evs b d = analyse e fs evs b d"
  by (auto simp: analyse_def log_entry_http Let_def split: sum.splits)

lemma load_data_as_success:
  "load_data (e\<lparr>http_get := \<lambda>symbol. as_success (http_get e symbol)\<rparr>) fs = load_data e fs"
  by (auto simp: load_data_def freeze_mode_def get_binance_data_as_success Let_def
      split: sum.splits)

lemma run_as_success:
  "run (e\<lparr>http_get := \<lambda>symbol. as_success (http_get e symbol)\<rparr>) fs = run e fs"
  by (auto simp: run_def load_data_as_success analyse_http_get split: sum.splits prod.splits)

text \<open>
  Claim C6, amended.  In live mode, when the request for one of the two assets gets no
  answer or an answer with a status code from 400 to 599, the run stops at once: the page
  shows the error message and no chart, and no file is written (no snapshot, no log row).
  An answer with any other status code is processed like a successful one: a well-formed
  body is taken as the fetched series whatever that status code is, and the whole run is
  the run in which every such answer has status 200.
\<close>

theorem fetch_failure_aborts:
  assumes "\<not> freeze_mode e"
  shows "(http_failure (http_get e ''BTCUSDT'') \<or> http_failure (http_get e ''ETHUSDT'')
            \<longrightarrow> ended (run e fs) = Stopped
              \<and> (\<exists>x. shown (run e fs) = [SidebarSuccess, HttpGet ''BTCUSDT'', StError x]
                    \<or> shown (run e fs)
                        = [SidebarSuccess, HttpGet ''BTCUSDT'', HttpGet ''ETHUSDT'', StError x])
              \<and> filter is_chart (shown (run e fs)) = []
              \<and> files_out (run e fs) = fs)
       \<and> (\<forall>symbol status klines.
             http_get e symbol = Response status (Some klines)
             \<and> \<not> (400 \<le> status \<and> status < 600)
             \<longrightarrow> get_binance_data e symbol = Inr klines)
       \<and> run (e\<lparr>http_get := \<lambda>symbol. as_success (http_get e symbol)\<rparr>) fs = run e fs"
proof (intro conjI allI impI)
  assume h: "http_failure (http_get e ''BTCUSDT'') \<or> http_failure (http_get e ''ETHUSDT'')"
  have g: "(\<exists>x. get_binance_data e ''BTCUSDT'' = Inl x) \<or> (\<exists>x. get_binance_data e ''ETHUSDT'' = Inl x)"
    using h get_binance_data_failure by blast
  from run_live_failed [OF assms g, of fs]
  show "ended (run e fs) = Stopped"
    and "\<exists>x. shown (run e fs) = [SidebarSuccess, HttpGet ''BTCUSDT'', StError x]
           \<or> shown (run e fs) = [SidebarSuccess, HttpGet ''BTCUSDT'', HttpGet ''ETHUSDT'', StError x]"
    and "filter is_chart (shown (run e fs)) = []"
    and "files_out (run e fs) = fs"
    by auto
next
  fix symbol status klines
  assume "http_get e symbol = Response status (Some klines) \<and> \<not> (400 \<le> status \<and> status < 600)"
  then show "get_binance_data e symbol = Inr klines"
    by (auto simp: get_binance_data_def)
next
  show "run (e\<lparr>http_get := \<lambda>symbol. as_success (http_get e symbol)\<rparr>) fs = run e fs"
    by (rule run_as_success)
qed

theorem fetch_failure_aborts_witness:
  "\<not> freeze_mode (live_env (Response 200 (Some [(0, 100)])) (Response 503 None) ''2024-05-01'')
   \<and> http_failure (Response 503 None)
   \<and> run (live_env (Response 200 (Some [(0, 100)])) (Response 503 None) ''2024-05-01'') Map.empty
       = \<lparr>files_out = Map.empty,
          shown = [SidebarSuccess, HttpGet ''BTCUSDT'', HttpGet ''ETHUSDT'', StError (HTTPError 503)],
          ended = Stopped\<rparr>
   \<and> \<not> freeze_mode (live_env (Response 300 (Some [(0, 100), (3600000, 110)]))
                    (Response 200 (Some [(0, 100), (3600000, 115)])) ''2024-05-01'')
   \<and> get_binance_data (live_env (Response 300 (Some [(0, 100), (3600000, 110)]))
                    (Response 200 (Some [(0, 100), (3600000, 115)])) ''2024-05-01'') ''BTCUSDT''
       = Inr [(0, 100), (3600000, 110)]
   \<and> as_success (Response 300 (Some [(0, 100), (3600000, 110)]))
       = Response 200 (Some [(0, 100), (3600000, 110)])
   \<and> run ((live_env (Response 300 (Some [(0, 100), (3600000, 110)]))
                    (Response 200 (Some [(0, 100), (3600000, 115)])) ''2024-05-01'')
            \<lparr>http_get := \<lambda>symbol. as_success
               (http_get (live_env (Response 300 (Some [(0, 100), (3600000, 110)]))
                    (Response 200 (Some [(0, 100), (3600000, 115)])) ''2024-05-01'') symbol)\<rparr>)
          Map.empty
       = run (live_env (Response 300 (Some [(0, 100), (3600000, 110)]))
                    (Response 200 (Some [(0, 100), (3600000, 115)])) ''2024-05-01'') Map.empty"
proof -
  let ?e = "live_env (Response 200 (Some [(0, 100)])) (Response 503 None) ''2024-05-01''"
  let ?r = "live_env (Response 300 (Some [(0, 100), (3600000, 110)]))
                    (Response 200 (Some [(0, 100), (3600000, 115)])) ''2024-05-01''"
  have f: "\<not> freeze_mode ?e" "\<not> freeze_mode ?r" by (simp_all add: live_env_def freeze_mode_def)
  have h: "http_failure (http_get ?e ''BTCUSDT'') \<or> http_failure (http_get ?e ''ETHUSDT'')"
    by (simp add: live_env_def http_failure_def)
  have g: "get_binance_data ?e ''ETHUSDT'' = Inl (HTTPError 503)"
    "get_binance_data ?e ''BTCUSDT'' = Inr [(0, 100)]"
    by (simp_all add: live_env_def get_binance_data_def)
  have s: "shown (run ?e Map.empty)
      = [SidebarSuccess, HttpGet ''BTCUSDT'', HttpGet ''ETHUSDT'', StError (HTTPError 503)]"
    using f g by (simp add: run_def load_data_def)
  note t1 = fetch_failure_aborts [OF f(1), of Map.empty]
  note t2 = fetch_failure_aborts [OF f(2), of Map.empty]
  have 1: "run ?e Map.empty
       = \<lparr>files_out = Map.empty,
          shown = [SidebarSuccess, HttpGet ''BTCUSDT'', HttpGet ''ETHUSDT'', StError (HTTPError 503)],
          ended = Stopped\<rparr>"
    using t1 h s by simp
  have q: "http_get ?r ''BTCUSDT'' = Response 300 (Some [(0, 100), (3600000, 110)])
      \<and> \<not> (400 \<le> (300::nat) \<and> (300::nat) < 600)"
    by (simp add: live_env_def)
  have 2: "get_binance_data ?r ''BTCUSDT'' = Inr [(0, 100), (3600000, 110)]"
    using t2 q by blast
  have 3: "run (?r\<lparr>http_get := \<lambda>symbol. as_success (http_get ?r symbol)\<rparr>) Map.empty
      = run ?r Map.empty"
    using t2 by blast
  have 4: "as_success (Response 300 (Some [(0, 100), (3600000, 110)]))
       = Response 200 (Some [(0, 100), (3600000, 110)])"
    by (simp add: as_success_def)
  show ?thesis using f 1 2 3 4 by (simp add: http_failure_def)
qed

text \<open>
  Claim C6 as stated speaks of every answer whose status is not 2xx.  A status outside
  400 to 599 raises nothing: with status 300 and a well-formed body for BTCUSDT the run
  completes and draws its three charts.
\<close>

theorem non_2xx_counterexample:
  "\<not> freeze_mode (live_env (Response 300 (Some [(0, 100), (3600000, 110)]))
                    (Response 200 (Some [(0, 100), (3600000, 115)])) ''2024-05-01'')
   \<and> ended (run (live_env (Response 300 (Some [(0, 100), (3600000, 110)]))
                    (Response 200 (Some [(0, 100), (3600000, 115)])) ''2024-05-01'') Map.empty)
       = Completed
   \<and> length (filter is_chart
         (shown (run (live_env (Response 300 (Some [(0, 100), (3600000, 110)]))
                    (Response 200 (Some [(0, 100), (3600000, 115)])) ''2024-05-01'') Map.empty)))
       = 3"
  by (simp add: eval_defs)

text \<open>
  Claim C10.  In live mode the two snapshot files are written together or not at all: when
  fetching one of the assets fails the files are what they were before the run, and when both
  fetches succeed both snapshot files of today hold the series just fetched.
\<close>

theorem snapshot_save_atomic:
  assumes "\<not> freeze_mode e"
  shows "((\<exists>x. get_binance_data e ''BTCUSDT'' = Inl x) \<or> (\<exists>x. get_binance_data e ''ETHUSDT'' = Inl x)
            \<longrightarrow> files_out (run e fs) = fs)
       \<and> (\<forall>b d. get_binance_data e ''BTCUSDT'' = Inr b \<and> get_binance_data e ''ETHUSDT'' = Inr d
            \<longrightarrow> files_out (run e fs) (snapshot_file ''BTCUSDT'' (today_at_save e)) = Some (to_csv b)
              \<and> files_out (run e fs) (snapshot_file ''ETHUSDT'' (today_at_save e)) = Some (to_csv d))"
proof (intro conjI allI impI)
  assume "(\<exists>x. get_binance_data e ''BTCUSDT'' = Inl x) \<or> (\<exists>x. get_binance_data e ''ETHUSDT'' = Inl x)"
  from run_live_failed [OF assms this, of fs] show "files_out (run e fs) = fs" by auto
next
  fix b d
  assume ok: "get_binance_data e ''BTCUSDT'' = Inr b \<and> get_binance_data e ''ETHUSDT'' = Inr d"
  have ne: "snapshot_file ''BTCUSDT'' (today_at_save e) \<noteq> snapshot_file ''ETHUSDT'' (today_at_save e)"
    by (simp add: snapshot_file_inj)
  show "files_out (run e fs) (snapshot_file ''BTCUSDT'' (today_at_save e)) = Some (to_csv b)"
    using ok ne
    by (simp add: run_live_ok [OF assms, of b d] analyse_files_other log_not_snapshot [symmetric])
  show "files_out (run e fs) (snapshot_file ''ETHUSDT'' (today_at_save e)) = Some (to_csv d)"
    using ok
    by (simp add: run_live_ok [OF assms, of b d] analyse_files_other log_not_snapshot [symmetric])
qed

theorem snapshot_save_atomic_witness:
  "\<not> freeze_mode (live_env (Response 200 (Some [(0, 100)])) NoResponse ''2024-05-01'')
   \<and> get_binance_data (live_env (Response 200 (Some [(0, 100)])) NoResponse ''2024-05-01'')
        ''BTCUSDT'' = Inr [(0, 100)]
   \<and> get_binance_data (live_env (Response 200 (Some [(0, 100)])) NoResponse ''2024-05-01'')
        ''ETHUSDT'' = Inl ConnectionError
   \<and> files_out (run (live_env (Response 200 (Some [(0, 100)])) NoResponse ''2024-05-01'')
        Map.empty) = Map.empty
   \<and> \<not> freeze_mode (live_env (Response 200 (Some [(0, 100)])) (Response 200 (Some [(0, 10)]))
        ''2024-05-01'')
   \<and> files_out (run (live_env (Response 200 (Some [(0, 100)])) (Response 200 (Some [(0, 10)]))
        ''2024-05-01'') Map.empty) (snapshot_file ''BTCUSDT'' ''2024-05-01'')
       = Some [SnapshotHeader, SnapshotRow 0 100]
   \<and> files_out (run (live_env (Response 200 (Some [(0, 100)])) (Response 200 (Some [(0, 10)]))
        ''2024-05-01'') Map.empty) (snapshot_file ''ETHUSDT'' ''2024-05-01'')
       = Some [SnapshotHeader, SnapshotRow 0 10]"
proof -
  let ?bad = "live_env (Response 200 (Some [(0, 100)])) NoResponse ''2024-05-01''"
  let ?good = "live_env (Response 200 (Some [(0, 100)])) (Response 200 (Some [(0, 10)])) ''2024-05-01''"
  have f: "\<not> freeze_mode ?bad" "\<not> freeze_mode ?good"
    by (simp_all add: live_env_def freeze_mode_def)
  have g: "get_binance_data ?bad ''BTCUSDT'' = Inr [(0, 100)]"
    "get_binance_data ?bad ''ETHUSDT'' = Inl ConnectionError"
    "get_binance_data ?good ''BTCUSDT'' = Inr [(0, 100)]"
    "get_binance_data ?good ''ETHUSDT'' = Inr [(0, 10)]"
    by (simp_all add: live_env_def get_binance_data_def)
  have t: "today_at_save ?good = ''2024-05-01''" by (simp add: live_env_def)
  show ?thesis
    using snapshot_save_atomic [OF f(1), of Map.empty] snapshot_save_atomic [OF f(2), of Map.empty]
      f g t
    by (simp add: to_csv_def)
qed

section \<open>Snapshot files\<close>

text \<open>
  Claim C5 as stated fails: a second live run on the same day replaces the snapshot the
  first one wrote.
\<close>

theorem snapshot_overwritten_counterexample:
  "files_out (run (live_env (Response 200 (Some [(0, 100)])) (Response 200 (Some [(0, 10)]))
       ''2024-05-01'') Map.empty) (snapshot_file ''BTCUSDT'' ''2024-05-01'')
     = Some [SnapshotHeader, SnapshotRow 0 100]
   \<and> files_out
       (run (live_env (Response 200 (Some [(3600000, 101)])) (Response 200 (Some [(3600000, 11)]))
          ''2024-05-01'')
         (files_out (run (live_env (Response 200 (Some [(0, 100)])) (Response 200 (Some [(0, 10)]))
            ''2024-05-01'') Map.empty)))
       (snapshot_file ''BTCUSDT'' ''2024-05-01'')
     = Some [SnapshotHeader, SnapshotRow 3600000 101]"
  by (simp add: eval_defs)

text \<open>
  Claim C5, amended.  The snapshot file of an asset and a date is left as it is by every run
  in freeze mode and by every run on another date; a live run whose two fetches succeed
  replaces both snapshot files of its own date by the series it fetched.
\<close>

theorem snapshot_changed_only_by_live_run_of_its_day:
  assumes "symbol = ''BTCUSDT'' \<or> symbol = ''ETHUSDT''"
  shows "(freeze_mode e \<or> day \<noteq> today_at_save e
            \<longrightarrow> files_out (run e fs) (snapshot_file symbol day) = fs (snapshot_file symbol day))
       \<and> (\<forall>b d. \<not> freeze_mode e \<and> get_binance_data e ''BTCUSDT'' = Inr b
                \<and> get_binance_data e ''ETHUSDT'' = Inr d
            \<longrightarrow> files_out (run e fs) (snapshot_file ''BTCUSDT'' (today_at_save e)) = Some (to_csv b)
              \<and> files_out (run e fs) (snapshot_file ''ETHUSDT'' (today_at_save e)) = Some (to_csv d))"
proof (intro conjI allI impI)
  assume a: "freeze_mode e \<or> day \<noteq> today_at_save e"
  show "files_out (run e fs) (snapshot_file symbol day) = fs (snapshot_file symbol day)"
  proof (cases "freeze_mode e")
    case True
    then show ?thesis
      by (simp add: run_def load_data_freeze analyse_files_other log_not_snapshot [symmetric]
          split: sum.splits)
  next
    case False
    then have day: "day \<noteq> today_at_save e" using a by simp
    show ?thesis
    proof (cases "(\<exists>x. get_binance_data e ''BTCUSDT'' = Inl x) \<or> (\<exists>x. get_binance_data e ''ETHUSDT'' = Inl x)")
      case True
      from run_live_failed [OF False True, of fs] show ?thesis by auto
    next
      case ok: False
      then obtain b d where
        "get_binance_data e ''BTCUSDT'' = Inr b" "get_binance_data e ''ETHUSDT'' = Inr d"
        by (cases "get_binance_data e ''BTCUSDT''"; cases "get_binance_data e ''ETHUSDT''") auto
      from run_live_ok [OF False this, of fs] show ?thesis
        using day assms
        by (auto simp: analyse_files_other log_not_snapshot [symmetric] snapshot_file_inj)
    qed
  qed
next
  fix b d
  assume ok: "\<not> freeze_mode e \<and> get_binance_data e ''BTCUSDT'' = Inr b
                \<and> get_binance_data e ''ETHUSDT'' = Inr d"
  then have f: "\<not> freeze_mode e" by simp
  have ne: "snapshot_file ''BTCUSDT'' (today_at_save e) \<noteq> snapshot_file ''ETHUSDT'' (today_at_save e)"
    by (simp add: snapshot_file_inj)
  show "files_out (run e fs) (snapshot_file ''BTCUSDT'' (today_at_save e)) = Some (to_csv b)"
    using ok ne
    by (simp add: run_live_ok [OF f, of b d] analyse_files_other log_not_snapshot [symmetric])
  show "files_out (run e fs) (snapshot_file ''ETHUSDT'' (today_at_save e)) = Some (to_csv d)"
    using ok
    by (simp add: run_live_ok [OF f, of b d] analyse_files_other log_not_snapshot [symmetric])
qed

theorem snapshot_changed_only_by_live_run_of_its_day_witness:
  "''2024-04-30'' \<noteq> today_at_save
      (live_env (Response 200 (Some [(0, 100)])) (Response 200 (Some [(0, 10)])) ''2024-05-01'')
   \<and> files_out
        (run (live_env (Response 200 (Some [(0, 100)])) (Response 200 (Some [(0, 10)])) ''2024-05-01'')
          [snapshot_file ''BTCUSDT'' ''2024-04-30'' \<mapsto> [SnapshotHeader, SnapshotRow 0 90]])
        (snapshot_file ''BTCUSDT'' ''2024-04-30'')
      = Some [SnapshotHeader, SnapshotRow 0 90]
   \<and> files_out
        (run (live_env (Response 200 (Some [(0, 100)])) (Response 200 (Some [(0, 10)])) ''2024-05-01'')
          [snapshot_file ''BTCUSDT'' ''2024-04-30'' \<mapsto> [SnapshotHeader, SnapshotRow 0 90]])
        (snapshot_file ''BTCUSDT'' ''2024-05-01'')
      = Some [SnapshotHeader, SnapshotRow 0 100]"
proof -
  let ?e = "live_env (Response 200 (Some [(0, 100)])) (Response 200 (Some [(0, 10)])) ''2024-05-01''"
  let ?fs = "[snapshot_file ''BTCUSDT'' ''2024-04-30'' \<mapsto> [SnapshotHeader, SnapshotRow 0 90]]"
  have f: "\<not> freeze_mode ?e"
    by (simp add: live_env_def freeze_mode_def)
  have g: "get_binance_data ?e ''BTCUSDT'' = Inr [(0, 100)]"
    "get_binance_data ?e ''ETHUSDT'' = Inr [(0, 10)]"
    by (simp_all add: live_env_def get_binance_data_def)
  have t: "today_at_save ?e = ''2024-05-01''" by (simp add: live_env_def)
  have s: "''BTCUSDT'' = ''BTCUSDT'' \<or> ''BTCUSDT'' = ''ETHUSDT''" by simp
  show ?thesis
    using snapshot_changed_only_by_live_run_of_its_day [OF s, of ?e "''2024-04-30''" ?fs] f g t
    by (simp add: to_csv_def)
qed

section \<open>The daily log\<close>

lemma analyse_log:
  "\<exists>row. files_out (analyse e fs evs b d) (log_filename (today_at_log e))
      = (if ended (analyse e fs evs b d) = Completed
         then Some (case fs (log_filename (today_at_log e)) of
                      None \<Rightarrow> [LogHeader, LogRow row] | Some ls \<Rightarrow> ls @ [LogRow row])
         else fs (log_filename (today_at_log e)))"
  by (auto simp: analyse_def Let_def write_log_def split: sum.splits)

lemma run_log:
  "\<exists>row. files_out (run e fs) (log_filename (today_at_log e))
      = (if ended (run e fs) = Completed
         then Some (case fs (log_filename (today_at_log e)) of
                      None \<Rightarrow> [LogHeader, LogRow row] | Some ls \<Rightarrow> ls @ [LogRow row])
         else fs (log_filename (today_at_log e)))"
proof (cases "load_data e fs")
  case (Inl r)
  then have "files_out r = fs \<and> ended r \<noteq> Completed"
    by (auto simp: load_data_def Let_def split: if_splits sum.splits)
  then show ?thesis using Inl by (simp add: run_def)
next
  case (Inr t)
  then obtain fs' evs b d where t: "t = (fs', evs, b, d)" by (cases t) auto
  have eq: "fs' (log_filename (today_at_log e)) = fs (log_filename (today_at_log e))"
    using Inr t by (auto simp: load_data_def Let_def log_not_snapshot split: if_splits sum.splits)
  have r: "run e fs = analyse e fs' evs b d" using Inr t by (simp add: run_def)
  show ?thesis using analyse_log [of e fs' evs b d] unfolding r eq .
qed

lemma run_other_log:
  assumes "day \<noteq> today_at_log e"
  shows "files_out (run e fs) (log_filename day) = fs (log_filename day)"
proof (cases "load_data e fs")
  case (Inl r)
  then have "files_out r = fs"
    by (auto simp: load_data_def Let_def split: if_splits sum.splits)
  then show ?thesis using Inl by (simp add: run_def)
next
  case (Inr t)
  then obtain fs' evs b d where t: "t = (fs', evs, b, d)" by (cases t) auto
  have eq: "fs' (log_filename day) = fs (log_filename day)"
    using Inr t by (auto simp: load_data_def Let_def log_not_snapshot split: if_splits sum.splits)
  have r: "run e fs = analyse e fs' evs b d" using Inr t by (simp add: run_def)
  have "log_filename day \<noteq> log_filename (today_at_log e)"
    using assms by (simp add: log_filename_inj)
  then show ?thesis unfolding r using eq by (simp add: analyse_files_other)
qed

lemma log_has_step:
  assumes "today_at_log e = day" and "log_has fs day n"
  shows "log_has (files_out (run e fs)) day (n + (if ended (run e fs) = Completed then 1 else 0))"
proof (cases "ended (run e fs) = Completed")
  case False
  then show ?thesis using run_log [of e fs] assms by (auto simp: log_has_def)
next
  case True
  then obtain row where row: "files_out (run e fs) (log_filename day)
      = Some (case fs (log_filename day) of
                None \<Rightarrow> [LogHeader, LogRow row] | Some ls \<Rightarrow> ls @ [LogRow row])"
    using run_log [of e fs] assms(1) by auto
  show ?thesis
  proof (cases "n = 0")
    case True
    then have "fs (log_filename day) = None" using assms(2) by (simp add: log_has_def)
    then have "files_out (run e fs) (log_filename day) = Some (LogHeader # map LogRow [row])"
      using row by simp
    then have "\<exists>rows. length rows = 1
        \<and> files_out (run e fs) (log_filename day) = Some (LogHeader # map LogRow rows)"
      by (metis length_Cons list.size(3) One_nat_def)
    then show ?thesis using True \<open>ended (run e fs) = Completed\<close> by (simp add: log_has_def)
  next
    case False
    then obtain rows where rows: "length rows = n"
      "fs (log_filename day) = Some (LogHeader # map LogRow rows)"
      using assms(2) by (auto simp: log_has_def)
    have "files_out (run e fs) (log_filename day) = Some (LogHeader # map LogRow (rows @ [row]))"
      using row rows(2) by simp
    moreover have "length (rows @ [row]) = n + 1" using rows(1) by simp
    ultimately have "\<exists>rows'. length rows' = n + 1
        \<and> files_out (run e fs) (log_filename day) = Some (LogHeader # map LogRow rows')"
      by blast
    then show ?thesis using \<open>ended (run e fs) = Completed\<close> by (simp add: log_has_def)
  qed
qed

lemma files_after_Cons:
  "files_after fs (runs (e # es) fs) = files_after (files_out (run e fs)) (runs es (files_out (run e fs)))"
  by (simp add: files_after_def)

lemma completed_Cons:
  "completed (runs (e # es) fs)
     = (if ended (run e fs) = Completed then 1 else 0) + completed (runs es (files_out (run e fs)))"
  by (simp add: completed_def)

lemma runs_log_has:
  "\<forall>e \<in> set es. today_at_log e = day \<Longrightarrow> log_has fs day n \<Longrightarrow>
     log_has (files_after fs (runs es fs)) day (n + completed (runs es fs))"
proof (induction es arbitrary: fs n)
  case Nil
  then show ?case by (simp add: files_after_def completed_def)
next
  case (Cons e es)
  have "log_has (files_out (run e fs)) day (n + (if ended (run e fs) = Completed then 1 else 0))"
    using log_has_step Cons.prems by simp
  from Cons.IH [OF _ this] Cons.prems(1) show ?case
    unfolding files_after_Cons completed_Cons by (simp add: add.assoc)
qed

text \<open>
  Claim C7, amended.  A run that completes (live or frozen) adds exactly one row to the log
  file of today's date, after the header if the file is new and at the end of the file
  otherwise; a run that does not complete leaves that file as it is; the log files of other
  dates are never touched.  So, starting without a log file for a day, runs on that day leave
  a file with one header and as many rows as runs completed, and no file when none did.
\<close>

theorem log_row_per_completed_run:
  "(\<exists>row. files_out (run e fs) (log_filename (today_at_log e))
      = (if ended (run e fs) = Completed
         then Some (case fs (log_filename (today_at_log e)) of
                      None \<Rightarrow> [LogHeader, LogRow row] | Some ls \<Rightarrow> ls @ [LogRow row])
         else fs (log_filename (today_at_log e))))
   \<and> (\<forall>day. day \<noteq> today_at_log e \<longrightarrow> files_out (run e fs) (log_filename day) = fs (log_filename day))
   \<and> (fs (log_filename day) = None \<and> (\<forall>e \<in> set es. today_at_log e = day)
        \<longrightarrow> (if completed (runs es fs) = 0
             then files_after fs (runs es fs) (log_filename day) = None
             else \<exists>rows. length rows = completed (runs es fs)
                    \<and> files_after fs (runs es fs) (log_filename day)
                        = Some (LogHeader # map LogRow rows)))"
proof (intro conjI allI impI)
  show "\<exists>row. files_out (run e fs) (log_filename (today_at_log e))
      = (if ended (run e fs) = Completed
         then Some (case fs (log_filename (today_at_log e)) of
                      None \<Rightarrow> [LogHeader, LogRow row] | Some ls \<Rightarrow> ls @ [LogRow row])
         else fs (log_filename (today_at_log e)))"
    by (rule run_log)
next
  fix day' assume "day' \<noteq> today_at_log e"
  then show "files_out (run e fs) (log_filename day') = fs (log_filename day')"
    by (rule run_other_log)
next
  assume a: "fs (log_filename day) = None \<and> (\<forall>e \<in> set es. today_at_log e = day)"
  then have "log_has fs day 0" by (simp add: log_has_def)
  from runs_log_has [OF _ this, of es] a
  show "if completed (runs es fs) = 0
             then files_after fs (runs es fs) (log_filename day) = None
             else \<exists>rows. length rows = completed (runs es fs)
                    \<and> files_after fs (runs es fs) (log_filename day)
                        = Some (LogHeader # map LogRow rows)"
    by (simp add: log_has_def)
qed

theorem log_row_per_completed_run_witness:
  "completed (runs [live_env (Response 200 (Some [(0, 100), (3600000, 110)]))
                             (Response 200 (Some [(0, 100), (3600000, 115)])) ''2024-05-01'',
                    frozen_env ''2024-05-01'' ''2024-05-01''] Map.empty) = 2
   \<and> (\<exists>rows. length rows = 2
        \<and> files_after Map.empty
             (runs [live_env (Response 200 (Some [(0, 100), (3600000, 110)]))
                             (Response 200 (Some [(0, 100), (3600000, 115)])) ''2024-05-01'',
                    frozen_env ''2024-05-01'' ''2024-05-01''] Map.empty)
             (log_filename ''2024-05-01'')
           = Some (LogHeader # map LogRow rows))"
proof -
  let ?es = "[live_env (Response 200 (Some [(0, 100), (3600000, 110)]))
                             (Response 200 (Some [(0, 100), (3600000, 115)])) ''2024-05-01'',
                    frozen_env ''2024-05-01'' ''2024-05-01'']"
  have c: "completed (runs ?es Map.empty) = 2"
    by (simp add: completed_def eval_defs)
  have d: "\<forall>e \<in> set ?es. today_at_log e = ''2024-05-01''"
    by (simp add: live_env_def frozen_env_def)
  have n: "Map.empty (log_filename ''2024-05-01'') = (None :: csv_line list option)" by simp
  show ?thesis
    using log_row_per_completed_run [of "hd ?es" Map.empty "''2024-05-01''" ?es] c d n
    by simp
qed

text \<open>
  Claim C7 as stated speaks of every invocation.  A live run whose fetch fails stops before
  the log is written: no row is appended and no log file is created.
\<close>

theorem no_log_row_counterexample:
  "run (live_env NoResponse NoResponse ''2024-05-01'') Map.empty
     = \<lparr>files_out = Map.empty,
        shown = [SidebarSuccess, HttpGet ''BTCUSDT'', StError ConnectionError],
        ended = Stopped\<rparr>
   \<and> files_out (run (live_env NoResponse NoResponse ''2024-05-01'') Map.empty)
       (log_filename ''2024-05-01'') = None"
  by (simp add: eval_defs)

end
